theory Spec2Isabelle
  imports Complex_Main
begin

section \<open>Diagnostics module (diagnostics.py)\<close>

text \<open>
  The two enumerations of the module. Python compares enum members by identity, so a
  plain datatype with its structural equality is the same thing.
\<close>

datatype Status = Success | Unstable | Failed

datatype Diagnostic =
    UnderCompression
  | Decoherence
  | CoercionDetected
  | ExpectationBreak
  | CoherenceVerified
  | CompressionRatioLow
  | CompressionRatioHigh
  | SemanticSurprise
  | NarrativeFlowBroken
  | BoundaryInsightWeak

text \<open>
  A Python float is a finite number, one of the two infinities, or NaN. Comparison of two
  floats (or of an int and a float) compares the numbers they denote exactly, and a NaN
  compares false with everything. A finite input is therefore given by the number it
  denotes.

  A float literal denotes the double nearest to the decimal it spells. The literals
  \<open>0.5\<close>, \<open>1.0\<close> and \<open>2.0\<close> are doubles themselves. The literals \<open>0.6\<close>,
  \<open>0.8\<close> and \<open>0.9\<close> are not: the doubles they denote are
  \<open>5404319552844595 / 2^53\<close> (just below 6/10), \<open>3602879701896397 / 2^52\<close> (just above
  8/10) and \<open>8106479329266893 / 2^53\<close> (just above 9/10).
\<close>

definition float_0_6 :: real where
  "float_0_6 = 5404319552844595 / 9007199254740992"

definition float_0_8 :: real where
  "float_0_8 = 3602879701896397 / 4503599627370496"

definition float_0_9 :: real where
  "float_0_9 = 8106479329266893 / 9007199254740992"

datatype pyfloat = Finite real | PosInf | NegInf | NaN

fun float_lt :: "pyfloat \<Rightarrow> real \<Rightarrow> bool" where
  "float_lt (Finite x) c = (x < c)"
| "float_lt PosInf c = False"
| "float_lt NegInf c = True"
| "float_lt NaN c = False"

fun float_gt :: "pyfloat \<Rightarrow> real \<Rightarrow> bool" where
  "float_gt (Finite x) c = (x > c)"
| "float_gt PosInf c = True"
| "float_gt NegInf c = False"
| "float_gt NaN c = False"

fun float_ge :: "pyfloat \<Rightarrow> real \<Rightarrow> bool" where
  "float_ge (Finite x) c = (x \<ge> c)"
| "float_ge PosInf c = True"
| "float_ge NegInf c = False"
| "float_ge NaN c = False"

text \<open>
  The report. \<open>metadata\<close> is a dict with string keys; its values are of no interest
  here and stay polymorphic.
\<close>

record 'v DiagnosticReport =
  status :: Status
  diagnostics :: "Diagnostic list"
  compression_ratio :: pyfloat
  coherence_score :: pyfloat
  breaks_detected :: int
  coercion_detected :: bool
  metadata :: "(string \<times> 'v) list"

definition is_valid :: "'v DiagnosticReport \<Rightarrow> bool" where
  "is_valid report = (status report = Success)"

definition has_issues :: "'v DiagnosticReport \<Rightarrow> bool" where
  "has_issues report = (length (diagnostics report) > 0)"

definition needs_refinement :: "'v DiagnosticReport \<Rightarrow> bool" where
  "needs_refinement report = (status report = Unstable)"

subsection \<open>DiagnosticValidator\<close>

definition determine_status :: "Diagnostic list \<Rightarrow> Status" where
  "determine_status ds =
     (if CoercionDetected \<in> set ds then Failed
      else if Decoherence \<in> set ds then Unstable
      else if CoherenceVerified \<in> set ds then Success
      else if length ds > 0 then Unstable
      else Success)"

definition validate_compression_ratio :: "pyfloat \<Rightarrow> Diagnostic option" where
  "validate_compression_ratio ratio =
     (if float_lt ratio 0.5 then Some CompressionRatioLow
      else if float_gt ratio 2.0 then Some CompressionRatioHigh
      else None)"

definition validate_coherence_score :: "pyfloat \<Rightarrow> Diagnostic option" where
  "validate_coherence_score score =
     (if float_lt score float_0_6 then Some Decoherence
      else if float_ge score float_0_8 then Some CoherenceVerified
      else None)"

text \<open>
  \<open>build_report\<close> appends to a local list, one guarded \<open>append\<close> after the other;
  \<open>append_if\<close> and \<open>append_opt\<close> are those statements. An enum member is always
  truthy, so \<open>if ratio_diag:\<close> tests for \<open>None\<close> only.
  The \<open>metadata\<close> argument defaults to \<open>None\<close>, and \<open>metadata or {}\<close> replaces
  \<open>None\<close> and the empty dict by a new empty dict.
\<close>

definition append_opt :: "'a list \<Rightarrow> 'a option \<Rightarrow> 'a list" where
  "append_opt xs d = (case d of None \<Rightarrow> xs | Some x \<Rightarrow> xs @ [x])"

definition append_if :: "'a list \<Rightarrow> bool \<Rightarrow> 'a \<Rightarrow> 'a list" where
  "append_if xs b x = (if b then xs @ [x] else xs)"

definition build_diagnostics :: "pyfloat \<Rightarrow> pyfloat \<Rightarrow> int \<Rightarrow> bool \<Rightarrow> bool \<Rightarrow> Diagnostic list" where
  "build_diagnostics ratio score breaks coercion surprise =
     (let ds0 = [];
          ds1 = append_opt ds0 (validate_compression_ratio ratio);
          ds2 = append_opt ds1 (validate_coherence_score score);
          ds3 = append_if ds2 coercion CoercionDetected;
          ds4 = append_if ds3 (breaks > 0) ExpectationBreak;
          ds5 = append_if ds4 surprise SemanticSurprise
      in ds5)"

definition build_report ::
  "pyfloat \<Rightarrow> pyfloat \<Rightarrow> int \<Rightarrow> bool \<Rightarrow> bool \<Rightarrow> (string \<times> 'v) list option \<Rightarrow> 'v DiagnosticReport" where
  "build_report ratio score breaks coercion surprise md =
     (let ds = build_diagnostics ratio score breaks coercion surprise;
          st = determine_status ds
      in \<lparr> status = st,
           diagnostics = ds,
           compression_ratio = ratio,
           coherence_score = score,
           breaks_detected = breaks,
           coercion_detected = coercion,
           metadata = (case md of None \<Rightarrow> [] | Some m \<Rightarrow> if m = [] then [] else m) \<rparr>)"

subsection \<open>DiagnosticLogger\<close>

definition suggest_refinement :: "'v DiagnosticReport \<Rightarrow> string option" where
  "suggest_refinement report =
     (if UnderCompression \<in> set (diagnostics report) then
        Some ''Expand the joke further; the insight needs more unfolding.''
      else if Decoherence \<in> set (diagnostics report) then
        Some ''Refocus the narrative; the core insight is getting lost.''
      else if CoercionDetected \<in> set (diagnostics report) then
        Some ''Reframe as invitation, not demand. Let the reader choose.''
      else if CompressionRatioLow \<in> set (diagnostics report) then
        Some ''The expansion is too minimal. Add more verses or layers.''
      else if CompressionRatioHigh \<in> set (diagnostics report) then
        Some ''The expansion is too verbose. Tighten the narrative.''
      else if BoundaryInsightWeak \<in> set (diagnostics report) then
        Some ''Strengthen the boundary insight; it's the anchor of the song.''
      else None)"

section \<open>Regular expressions, as the toolkit's patterns use Python's \<open>re\<close>\<close>

text \<open>
  Text is a list of 8-bit characters, read as the code points 0 to 255. The three
  predicates below are Python's \<open>str.isspace\<close>, \<open>str.isalnum\<close> and
  \<open>str.lower\<close> on that range. Every pattern of the toolkit is compiled with
  \<open>re.IGNORECASE\<close>, and the patterns that use \<open>.\<close> are compiled with
  \<open>re.DOTALL\<close> as well; so a literal is matched up to case and \<open>.\<close>
  matches every character.
\<close>

definition isspace :: "char \<Rightarrow> bool" where
  "isspace c = (of_char c \<in> {9, 10, 11, 12, 13, 28, 29, 30, 31, 32, 133, 160 :: int})"

definition isalnum :: "char \<Rightarrow> bool" where
  "isalnum c =
     (let n = of_char c :: int in
        (48 \<le> n \<and> n \<le> 57) \<or> (65 \<le> n \<and> n \<le> 90) \<or> (97 \<le> n \<and> n \<le> 122) \<or>
        n \<in> {170, 178, 179, 181, 185, 186, 188, 189, 190} \<or>
        (192 \<le> n \<and> n \<le> 214) \<or> (216 \<le> n \<and> n \<le> 246) \<or> (248 \<le> n \<and> n \<le> 255))"

definition lower_code :: "int \<Rightarrow> int" where
  "lower_code n =
     (if (65 \<le> n \<and> n \<le> 90) \<or> (192 \<le> n \<and> n \<le> 214) \<or> (216 \<le> n \<and> n \<le> 222)
      then n + 32 else n)"

definition ci_eq :: "char \<Rightarrow> char \<Rightarrow> bool" where
  "ci_eq a b = (lower_code (of_char a) = lower_code (of_char b))"

text \<open>
  The one-character items of the patterns: a literal, \<open>\s\<close>, \<open>\w\<close> and
  \<open>.\<close>.
\<close>

datatype cclass = Ch char | Space | Word | Dot

fun in_class :: "cclass \<Rightarrow> char \<Rightarrow> bool" where
  "in_class (Ch l) c = ci_eq c l"
| "in_class Space c = isspace c"
| "in_class Word c = (isalnum c \<or> c = CHR ''_'')"
| "in_class Dot c = True"

text \<open>
  The pattern syntax the toolkit uses: concatenation, alternation, \<open>r?\<close>, \<open>c+\<close>
  and \<open>c*?\<close> on a one-character item \<open>c\<close>, a numbered capturing group, a
  back-reference and the negative lookahead \<open>(?!r)\<close>. A non-capturing group
  \<open>(?:r)\<close> is \<open>r\<close> itself.
\<close>

datatype regex =
    Eps
  | One cclass
  | Seq regex regex
  | Alt regex regex
  | Opt regex
  | Plus cclass
  | LazyStar cclass
  | Group nat regex
  | Backref nat
  | NotAhead regex

text \<open>
  A backtracking matcher tries its alternatives in a fixed order and takes the first
  that lets the rest of the pattern succeed. \<open>rmatch r (s, cs)\<close> lists, in that
  order, every way \<open>r\<close> can match a prefix of \<open>s\<close>: the text left over and the groups
  captured so far (latest first). The first alternative of \<open>|\<close> comes first, \<open>r?\<close>
  and \<open>c+\<close> are greedy (longest first), \<open>c*?\<close> is lazy (shortest first).
\<close>

type_synonym caps = "(nat \<times> string) list"
type_synonym mstate = "string \<times> caps"

fun step_class :: "cclass \<Rightarrow> mstate \<Rightarrow> mstate list" where
  "step_class cl ([], cs) = []"
| "step_class cl (c # s, cs) = (if in_class cl c then [(s, cs)] else [])"

fun greedy_plus :: "cclass \<Rightarrow> mstate \<Rightarrow> mstate list" where
  "greedy_plus cl ([], cs) = []"
| "greedy_plus cl (c # s, cs) = (if in_class cl c then greedy_plus cl (s, cs) @ [(s, cs)] else [])"

fun lazy_star :: "cclass \<Rightarrow> mstate \<Rightarrow> mstate list" where
  "lazy_star cl ([], cs) = [([], cs)]"
| "lazy_star cl (c # s, cs) = (c # s, cs) # (if in_class cl c then lazy_star cl (s, cs) else [])"

fun ci_prefix :: "string \<Rightarrow> string \<Rightarrow> bool" where
  "ci_prefix [] s = True"
| "ci_prefix (a # w) [] = False"
| "ci_prefix (a # w) (c # s) = (ci_eq c a \<and> ci_prefix w s)"

primrec rmatch :: "regex \<Rightarrow> mstate \<Rightarrow> mstate list" where
  "rmatch Eps st = [st]"
| "rmatch (One cl) st = step_class cl st"
| "rmatch (Seq r1 r2) st = concat (map (rmatch r2) (rmatch r1 st))"
| "rmatch (Alt r1 r2) st = rmatch r1 st @ rmatch r2 st"
| "rmatch (Opt r) st = rmatch r st @ [st]"
| "rmatch (Plus cl) st = greedy_plus cl st"
| "rmatch (LazyStar cl) st = lazy_star cl st"
| "rmatch (Group n r) st =
     map (\<lambda>(s', cs'). (s', (n, take (length (fst st) - length s') (fst st)) # cs')) (rmatch r st)"
| "rmatch (Backref n) st =
     (case map_of (snd st) n of
        None \<Rightarrow> []
      | Some w \<Rightarrow> if ci_prefix w (fst st) then [(drop (length w) (fst st), snd st)] else [])"
| "rmatch (NotAhead r) st = (if rmatch r st = [] then [st] else [])"

text \<open>
  A match object: \<open>match.start()\<close>, \<open>match.group()\<close> and the numbered groups.
  \<open>group m n\<close> is \<open>match.group(n)\<close> as an f-string prints it.
\<close>

record rematch =
  m_start :: nat
  m_group :: string
  m_groups :: caps

definition group :: "rematch \<Rightarrow> nat \<Rightarrow> string" where
  "group m n = (case map_of (m_groups m) n of None \<Rightarrow> ''None'' | Some w \<Rightarrow> w)"

text \<open>
  \<open>pattern.finditer(s)\<close>: the non-overlapping matches from left to right. At each
  position the first way to match is taken; where there is none the scan moves one
  character on. After an empty match the next one may start at the same position but has
  to be non-empty there (\<open>must_advance\<close>); the filter keeps the non-empty ways only, so
  the branch for an empty match under \<open>must_advance\<close> is never taken.
\<close>

function finditer_from :: "regex \<Rightarrow> nat \<Rightarrow> string \<Rightarrow> bool \<Rightarrow> rematch list" where
  "finditer_from r pos s must_advance =
     (case (if must_advance then filter (\<lambda>(s', cs). length s' < length s) (rmatch r (s, []))
            else rmatch r (s, [])) of
        [] \<Rightarrow> (case s of [] \<Rightarrow> [] | c # s' \<Rightarrow> finditer_from r (Suc pos) s' False)
      | (s', cs) # _ \<Rightarrow>
          \<lparr> m_start = pos, m_group = take (length s - length s') s, m_groups = cs \<rparr> #
          (if length s' < length s then finditer_from r (pos + (length s - length s')) s' False
           else if must_advance then []
           else finditer_from r pos s True))"
  by pat_completeness auto
termination
  by (relation "measure (\<lambda>(r, pos, s, adv). 2 * length s + (if adv then 0 else 1))") auto

declare finditer_from.simps [simp del]

definition finditer :: "regex \<Rightarrow> string \<Rightarrow> rematch list" where
  "finditer r s = finditer_from r 0 s False"

text \<open>
  \<open>pattern.findall(s)\<close> for a pattern without capturing groups is the list of the
  matched texts, and \<open>pattern.search(s)\<close> is the first match, if any.
\<close>

definition findall :: "regex \<Rightarrow> string \<Rightarrow> string list" where
  "findall r s = map m_group (finditer r s)"

definition search :: "regex \<Rightarrow> string \<Rightarrow> rematch option" where
  "search r s = (case finditer r s of [] \<Rightarrow> None | m # _ \<Rightarrow> Some m)"

text \<open>Shorthands to write the patterns down as the source spells them.\<close>

fun lit :: "string \<Rightarrow> regex" where
  "lit [] = Eps"
| "lit [c] = One (Ch c)"
| "lit (c # s) = Seq (One (Ch c)) (lit s)"

fun seqs :: "regex list \<Rightarrow> regex" where
  "seqs [] = Eps"
| "seqs [r] = r"
| "seqs (r # rs) = Seq r (seqs rs)"

fun alts :: "regex list \<Rightarrow> regex" where
  "alts [] = NotAhead Eps"
| "alts [r] = r"
| "alts (r # rs) = Alt r (alts rs)"

definition words :: "string list \<Rightarrow> regex" where
  "words ws = alts (map lit ws)"

abbreviation ws :: regex where
  "ws \<equiv> Plus Space"

subsection \<open>Other string operations of Python\<close>

text \<open>\<open>s.split()\<close>: the maximal runs of characters that are not whitespace.\<close>

fun split_from :: "string \<Rightarrow> string \<Rightarrow> string list" where
  "split_from w [] = (if w = [] then [] else [w])"
| "split_from w (c # s) =
     (if isspace c then (if w = [] then split_from [] s else w # split_from [] s)
      else split_from (w @ [c]) s)"

definition split :: "string \<Rightarrow> string list" where
  "split s = split_from [] s"

definition endswith :: "string \<Rightarrow> string \<Rightarrow> bool" where
  "endswith s suf = (length suf \<le> length s \<and> drop (length s - length suf) s = suf)"

fun startswith :: "string \<Rightarrow> string \<Rightarrow> bool" where
  "startswith s [] = True"
| "startswith [] (a # w) = False"
| "startswith (c # s) (a # w) = (c = a \<and> startswith s w)"

text \<open>\<open>needle in s\<close> on strings.\<close>

fun str_in :: "string \<Rightarrow> string \<Rightarrow> bool" where
  "str_in needle [] = (needle = [])"
| "str_in needle (c # s) = (startswith (c # s) needle \<or> str_in needle s)"

text \<open>\<open>sep.join(xs)\<close>.\<close>

fun join :: "string \<Rightarrow> string list \<Rightarrow> string" where
  "join sep [] = []"
| "join sep [x] = x"
| "join sep (x # xs) = x @ sep @ join sep xs"

text \<open>
  True division raises \<open>ZeroDivisionError\<close> on a zero divisor. The numbers divided in
  the toolkit are counts, so the quotient is taken in the reals.
\<close>

datatype py_error = ZeroDivisionError

definition truediv :: "real \<Rightarrow> real \<Rightarrow> py_error + real" where
  "truediv a b = (if b = 0 then Inl ZeroDivisionError else Inr (a / b))"

definition and_then :: "py_error + 'a \<Rightarrow> ('a \<Rightarrow> py_error + 'b) \<Rightarrow> py_error + 'b" where
  "and_then x f = (case x of Inl e \<Rightarrow> Inl e | Inr v \<Rightarrow> f v)"

section \<open>Classifier module (classifier.py)\<close>

text \<open>
  A detected break. \<open>position\<close> is a \<open>match.start()\<close>, an offset into the text.
\<close>

record ExpectationBreak =
  break_type :: string
  position :: nat
  content :: string
  confidence :: real
  explanation :: string

definition SURPRISE_MARKERS :: "regex list" where
  "SURPRISE_MARKERS =
     [seqs [lit ''because'', ws, NotAhead (lit ''of'')],
      seqs [lit ''but'', ws, words [''the'', ''it'', ''they'']],
      seqs [lit ''actually'', ws],
      seqs [lit ''instead'', ws],
      lit ''paradox'',
      lit ''contradiction'',
      seqs [lit ''however'', ws],
      seqs [lit ''yet'', ws],
      seqs [lit ''though'', ws],
      seqs [lit ''despite'', ws]]"

definition PARADOX_PATTERNS :: "regex list" where
  "PARADOX_PATTERNS =
     [seqs [words [''can'', ''could'', ''must'', ''should''], ws, words [''and'', ''but'', ''yet''], ws,
            words [''cannot'', ''couldn't'', ''mustn't'', ''shouldn't'']],
      seqs [words [''true'', ''real'', ''false'', ''fake''], ws, words [''and'', ''but'', ''yet''], ws,
            words [''false'', ''fake'', ''true'', ''real'']],
      seqs [words [''yes'', ''no''], ws, words [''and'', ''but'', ''yet''], ws, words [''no'', ''yes'']]]"

text \<open>The instance: the two pattern lists that \<open>__init__\<close> compiles.\<close>

record ExpectationBreakClassifier =
  surprise_patterns :: "regex list"
  paradox_patterns :: "regex list"

definition new_classifier :: ExpectationBreakClassifier where
  "new_classifier = \<lparr> surprise_patterns = SURPRISE_MARKERS, paradox_patterns = PARADOX_PATTERNS \<rparr>"

definition reversal_pattern :: regex where
  "reversal_pattern =
     seqs [Group 1 (Plus Word), ws, words [''is'', ''was''], ws, Group 2 (Plus Word), LazyStar Dot,
           Group 3 (Backref 2), ws, words [''is'', ''was''], ws, Group 4 (Backref 1)]"

text \<open>
  The separator that the source prints between the two groups of a reversal is a
  three-character non-ASCII string; it is given here by the bytes the source file has
  for it.
\<close>

definition reversal_separator :: string where
  "reversal_separator =
     [CHR 0x20, CHR 0xC3, CHR 0xA2, CHR 0xE2, CHR 0x80, CHR 0xA0, CHR 0xE2, CHR 0x80, CHR 0x9D, CHR 0x20]"

definition detect_reversals :: "string \<Rightarrow> ExpectationBreak list" where
  "detect_reversals text =
     map (\<lambda>m. \<lparr> break_type = ''reversal'',
                position = m_start m,
                content = m_group m,
                confidence = 0.85,
                explanation = ''Reversal: '' @ group m 1 @ reversal_separator @ group m 2 \<rparr>)
         (finditer reversal_pattern text)"

definition contrast_pattern :: regex where
  "contrast_pattern =
     seqs [words [''expected'', ''assumed'', ''thought'', ''believed''], LazyStar Dot,
           words [''but'', ''however'', ''yet'', ''instead''], LazyStar Dot,
           words [''actually'', ''really'', ''truly'']]"

definition detect_contrasts :: "string \<Rightarrow> ExpectationBreak list" where
  "detect_contrasts text =
     map (\<lambda>m. \<lparr> break_type = ''contrast'',
                position = m_start m,
                content = m_group m,
                confidence = 0.8,
                explanation = ''Expectation contrast: '' @ take 50 (m_group m) @ ''...'' \<rparr>)
         (finditer contrast_pattern text)"

definition surprise_marker_breaks :: "ExpectationBreakClassifier \<Rightarrow> string \<Rightarrow> ExpectationBreak list" where
  "surprise_marker_breaks self text =
     concat (map (\<lambda>pattern.
        map (\<lambda>m. \<lparr> break_type = ''surprise_marker'',
                   position = m_start m,
                   content = m_group m,
                   confidence = 0.7,
                   explanation = ''Semantic surprise at: '' @ m_group m \<rparr>)
            (finditer pattern text)) (surprise_patterns self))"

definition paradox_breaks :: "ExpectationBreakClassifier \<Rightarrow> string \<Rightarrow> ExpectationBreak list" where
  "paradox_breaks self text =
     concat (map (\<lambda>pattern.
        map (\<lambda>m. \<lparr> break_type = ''paradox'',
                   position = m_start m,
                   content = m_group m,
                   confidence = 0.9,
                   explanation = ''Paradox detected: '' @ m_group m \<rparr>)
            (finditer pattern text)) (paradox_patterns self))"

text \<open>
  \<open>detect_breaks\<close> fills one list by the four scans in turn and sorts it in place by
  \<open>position\<close>. Python's sort is stable, and so is \<open>sort_key\<close>.
\<close>

definition collect_breaks :: "ExpectationBreakClassifier \<Rightarrow> string \<Rightarrow> ExpectationBreak list" where
  "collect_breaks self text =
     surprise_marker_breaks self text @ paradox_breaks self text @
     detect_reversals text @ detect_contrasts text"

definition detect_breaks :: "ExpectationBreakClassifier \<Rightarrow> string \<Rightarrow> ExpectationBreak list" where
  "detect_breaks self text = sort_key position (collect_breaks self text)"

definition calculate_surprise_density :: "ExpectationBreakClassifier \<Rightarrow> string \<Rightarrow> py_error + real" where
  "calculate_surprise_density self text =
     (let breaks = detect_breaks self text in
      if breaks = [] then Inr 0.0
      else
        let word_count = length (split text);
            break_count = length breaks
        in and_then (truediv (real break_count) (real word_count))
             (\<lambda>q. Inr (min 1.0 (q * 10))))"

definition classify_content_type :: "ExpectationBreakClassifier \<Rightarrow> string \<Rightarrow> string" where
  "classify_content_type self text =
     (let breaks = detect_breaks self text in
      if breaks = [] then ''straightforward''
      else
        let break_types = map break_type breaks in
        if ''paradox'' \<in> set break_types then ''paradox''
        else if ''reversal'' \<in> set break_types then ''reversal''
        else if length (filter (\<lambda>b. break_type b = ''surprise_marker'') breaks) > 2 then ''joke''
        else if ''contrast'' \<in> set break_types then ''contrast_narrative''
        else ''semantic_surprise'')"

section \<open>Validator module (validator.py)\<close>

definition COERCION_TERMS :: "regex list" where
  "COERCION_TERMS =
     [seqs [lit ''must'', ws, words [''believe'', ''accept'', ''agree'', ''understand'']],
      seqs [lit ''you'', ws, Opt (seqs [lit ''have'', ws]), lit ''to'', ws,
            words [''believe'', ''accept'', ''agree'']],
      words [''obviously'', ''clearly'', ''obviously'', ''undeniably''],
      seqs [Opt (seqs [lit ''no'', ws]),
            alts [lit ''one'', lit ''person'', seqs [lit ''reasonable'', ws, lit ''person'']], ws,
            words [''can'', ''could'', ''would''], ws, words [''disagree'', ''argue'']],
      seqs [Opt (seqs [lit ''if'', ws]), lit ''you'', ws, words [''don't'', ''can't''], ws,
            words [''see'', ''understand'', ''agree'']],
      seqs [words [''only'', ''just'', ''simply''], ws, words [''believe'', ''accept'', ''understand'']],
      alts [seqs [lit ''everyone'', ws, lit ''knows''],
            seqs [lit ''it's'', ws, lit ''common'', ws, lit ''knowledge'']],
      seqs [Opt (seqs [lit ''you'', ws, alts [lit ''must'', seqs [lit ''have'', ws, lit ''to'']], ws]),
            words [''admit'', ''confess'', ''acknowledge'']]]"

definition EMOTIONAL_MANIPULATION_TERMS :: "regex list" where
  "EMOTIONAL_MANIPULATION_TERMS =
     [seqs [Opt (seqs [lit ''you'', ws]), Opt (seqs [lit ''should'', ws]), words [''feel'', ''be''], ws,
            words [''ashamed'', ''guilty'', ''afraid'', ''scared'']],
      seqs [Opt (seqs [lit ''if'', ws]), lit ''you'', ws, words [''really'', ''truly'', ''genuinely''], ws,
            words [''care'', ''love'']],
      seqs [words [''only'', ''real'', ''true''], ws, words [''believers'', ''followers'', ''supporters'']],
      seqs [Opt (seqs [lit ''you'', ws]), words [''can't'', ''won't''], ws, Opt (seqs [lit ''help'', ws]),
            words [''but'', ''except'']],
      seqs [seqs [lit ''everyone'', ws, alts [lit ''else'', seqs [lit ''around'', ws, lit ''you'']]], ws,
            words [''knows'', ''believes'', ''agrees'']]]"

definition PRESSURE_TERMS :: "regex list" where
  "PRESSURE_TERMS =
     [seqs [words [''act'', ''decide'', ''choose''], ws, words [''now'', ''immediately'', ''today'']],
      seqs [words [''limited'', ''only'', ''exclusive''], ws, words [''time'', ''offer'', ''opportunity'']],
      seqs [words [''don't'', ''can't''], ws, words [''wait'', ''delay'', ''hesitate'']],
      seqs [words [''before'', ''unless''], ws, Opt (seqs [lit ''it's'', ws]), lit ''too'', ws, lit ''late''],
      alts [lit ''hurry'', lit ''rush'', seqs [lit ''act'', ws, lit ''fast'']]]"

definition AUTHORITY_TERMS :: "regex list" where
  "AUTHORITY_TERMS =
     [seqs [words [''I'', ''we''], ws,
            alts [lit ''know'', lit ''understand'', seqs [lit ''have'', ws, lit ''discovered'']], ws,
            Opt (seqs [lit ''the'', ws]), lit ''truth''],
      seqs [words [''expert'', ''authority'', ''specialist''], ws, words [''says'', ''claims'', ''believes'']],
      seqs [words [''scientific'', ''proven'', ''verified''], ws, words [''fact'', ''truth'']],
      alts [seqs [lit ''according'', ws, lit ''to''], seqs [lit ''research'', ws, lit ''shows''],
            seqs [lit ''studies'', ws, lit ''prove'']]]"

record TIMValidator =
  coercion_patterns :: "regex list"
  emotional_patterns :: "regex list"
  pressure_patterns :: "regex list"
  authority_patterns :: "regex list"

definition new_validator :: TIMValidator where
  "new_validator =
     \<lparr> coercion_patterns = COERCION_TERMS,
       emotional_patterns = EMOTIONAL_MANIPULATION_TERMS,
       pressure_patterns = PRESSURE_TERMS,
       authority_patterns = AUTHORITY_TERMS \<rparr>"

text \<open>
  The body of the loop that the four scans share: \<open>findall\<close>, and where the list is not
  empty one violation, made of the scan's label and \<open>matches[0]\<close>.
\<close>

definition append_violation :: "string \<Rightarrow> string \<Rightarrow> string list \<Rightarrow> regex \<Rightarrow> string list" where
  "append_violation label text violations pattern =
     (case findall pattern text of
        [] \<Rightarrow> violations
      | m # _ \<Rightarrow> violations @ [label @ m])"

definition check_coercion :: "TIMValidator \<Rightarrow> string \<Rightarrow> string list" where
  "check_coercion self text =
     foldl (append_violation ''Coercive language detected: '' text) [] (coercion_patterns self)"

definition check_emotional_manipulation :: "TIMValidator \<Rightarrow> string \<Rightarrow> string list" where
  "check_emotional_manipulation self text =
     foldl (append_violation ''Emotional manipulation detected: '' text) [] (emotional_patterns self)"

definition check_pressure :: "TIMValidator \<Rightarrow> string \<Rightarrow> string list" where
  "check_pressure self text =
     foldl (append_violation ''Pressure/urgency tactic detected: '' text) [] (pressure_patterns self)"

definition check_authority_claims :: "TIMValidator \<Rightarrow> string \<Rightarrow> string list" where
  "check_authority_claims self text =
     foldl (append_violation ''Authority claim detected: '' text) [] (authority_patterns self)"

definition contradiction_pattern :: regex where
  "contradiction_pattern =
     seqs [words [''true'', ''real'', ''correct''], LazyStar Dot, words [''false'', ''fake'', ''wrong'']]"

definition check_coherence :: "string \<Rightarrow> string list" where
  "check_coherence text =
     (let v0 = [];
          v1 = (if search contradiction_pattern text \<noteq> None
                then v0 @ [''Potential contradiction detected''] else v0);
          v2 = (if endswith text ''but'' \<or> endswith text ''however'' \<or> endswith text ''yet'' \<or>
                   endswith text ''because''
                then v1 @ [''Incomplete thought at end of content''] else v1)
      in v2)"

text \<open>
  The \<open>constraints\<close> argument: \<open>None\<close> or a dict; \<open>constraints.get(key, True)\<close>
  reads a switch.
\<close>

type_synonym constraints = "(string \<times> bool) list"

definition dict_get :: "constraints \<Rightarrow> string \<Rightarrow> bool \<Rightarrow> bool" where
  "dict_get d k dflt = (case map_of d k of None \<Rightarrow> dflt | Some b \<Rightarrow> b)"

definition effective_constraints :: "constraints option \<Rightarrow> constraints" where
  "effective_constraints constraints_arg =
     (case constraints_arg of None \<Rightarrow> [(''non_coercion'', True)] | Some d \<Rightarrow> d)"

definition validate :: "TIMValidator \<Rightarrow> string \<Rightarrow> constraints option \<Rightarrow> bool \<times> string list" where
  "validate self text constraints_arg =
     (let constraints = effective_constraints constraints_arg;
          v0 = [];
          v1 = (if dict_get constraints ''non_coercion'' True
                then v0 @ check_coercion self text @ check_emotional_manipulation self text
                        @ check_pressure self text @ check_authority_claims self text
                else v0);
          v2 = (if dict_get constraints ''coherence'' True then v1 @ check_coherence text else v1)
      in (length v2 = 0, v2))"

definition coercive_tip :: string where
  "coercive_tip =
     ''Reframe as invitation: 'You might consider...' instead of 'You must...'' @ [CHR 0x27]"

definition emotional_tip :: string where
  "emotional_tip =
     ''Appeal to understanding, not emotion: 'This perspective shows...' instead of 'You should feel...''
       @ [CHR 0x27]"

definition pressure_tip :: string where
  "pressure_tip =
     ''Remove time pressure: 'This is worth considering' instead of 'Act now'' @ [CHR 0x27]"

definition authority_tip :: string where
  "authority_tip =
     ''Share perspective humbly: 'One way to see this...' instead of 'The truth is...'' @ [CHR 0x27]"

text \<open>The four \<open>if\<close> statements in the loop of \<open>suggest_reframe\<close>, for one violation.\<close>

definition tips_for :: "string \<Rightarrow> string list" where
  "tips_for violation =
     (if str_in ''Coercive language'' violation then [coercive_tip] else []) @
     (if str_in ''Emotional manipulation'' violation then [emotional_tip] else []) @
     (if str_in ''Pressure/urgency'' violation then [pressure_tip] else []) @
     (if str_in ''Authority claim'' violation then [authority_tip] else [])"

definition suggest_reframe :: "TIMValidator \<Rightarrow> string \<Rightarrow> string option" where
  "suggest_reframe self text =
     (case validate self text None of (valid, violations) \<Rightarrow>
        if valid then None
        else
          let suggestions = foldl (\<lambda>acc violation. acc @ tips_for violation) [] violations in
          if suggestions \<noteq> [] then Some (join '' '' suggestions) else None)"

definition calculate_coercion_score :: "TIMValidator \<Rightarrow> string \<Rightarrow> py_error + real" where
  "calculate_coercion_score self text =
     (case validate self text None of (valid, violations) \<Rightarrow>
        if valid then Inr 0.0
        else
          let violation_count = length violations;
              word_count = length (split text)
          in and_then (truediv (real violation_count) (real (max word_count 1)))
               (\<lambda>q. let coercion_density = q * 100 in Inr (min 1.0 coercion_density)))"

definition invitational_patterns :: "regex list" where
  "invitational_patterns =
     [seqs [Opt (seqs [lit ''you'', ws]), words [''might'', ''could'', ''may''], ws,
            words [''consider'', ''explore'', ''think'']],
      seqs [Opt (seqs [lit ''one'', ws]), words [''way'', ''perspective'', ''approach'']],
      words [''perhaps'', ''maybe'', ''possibly''],
      seqs [Opt (seqs [lit ''if'', ws]), Opt (seqs [lit ''you'', ws]),
            words [''choose'', ''prefer'', ''decide'']],
      alts [lit ''worth'', lit ''interesting'', seqs [lit ''worth'', ws, lit ''exploring'']]]"

definition calculate_invitation_score :: "TIMValidator \<Rightarrow> string \<Rightarrow> py_error + real" where
  "calculate_invitation_score self text =
     and_then (calculate_coercion_score self text) (\<lambda>coercion_score.
       let invitational_count =
             foldl (\<lambda>n pattern. n + length (findall pattern text)) 0 invitational_patterns;
           word_count = length (split text)
       in and_then (truediv (real invitational_count) (real (max word_count 1))) (\<lambda>q.
            let invitational_density = q * 100 in
            and_then (truediv invitational_density 100) (\<lambda>d.
              let invitation_score = (1.0 - coercion_score) * (1.0 + min 0.5 d)
              in Inr (min 1.0 invitation_score))))"

section \<open>The wording of the claims, for comparison with the code\<close>

text \<open>
  What one of the four scans reports, as the specification words it: for each pattern of
  the list in turn that matches somewhere in the text, one violation, made of the scan's
  label and the text of the first match only.
\<close>

definition first_match_violations :: "string \<Rightarrow> regex list \<Rightarrow> string \<Rightarrow> string list" where
  "first_match_violations label patterns text =
     concat (map (\<lambda>p. case search p text of None \<Rightarrow> [] | Some m \<Rightarrow> [label @ m_group m]) patterns)"

text \<open>
  The lookup table of \<open>suggest_refinement\<close>, in the order of its \<open>if\<close> statements.
\<close>

definition refinement_table :: "(Diagnostic \<times> string) list" where
  "refinement_table =
     [(UnderCompression, ''Expand the joke further; the insight needs more unfolding.''),
      (Decoherence, ''Refocus the narrative; the core insight is getting lost.''),
      (CoercionDetected, ''Reframe as invitation, not demand. Let the reader choose.''),
      (CompressionRatioLow, ''The expansion is too minimal. Add more verses or layers.''),
      (CompressionRatioHigh, ''The expansion is too verbose. Tighten the narrative.''),
      (BoundaryInsightWeak, ''Strengthen the boundary insight; it's the anchor of the song.'')]"

text \<open>
  The suggestion as the specification words it: the entry of the first diagnostic, in the
  order of the report's sequence, that the table has.
\<close>

definition first_in_sequence :: "Diagnostic list \<Rightarrow> string option" where
  "first_in_sequence ds =
     (case filter (\<lambda>d. d \<in> fst ` set refinement_table) ds of
        [] \<Rightarrow> None
      | d # _ \<Rightarrow> map_of refinement_table d)"

text \<open>
  The suggestion by the order of the table: the entry of the first row of the table whose
  diagnostic the report has anywhere.
\<close>

definition first_in_table :: "Diagnostic list \<Rightarrow> string option" where
  "first_in_table ds =
     (case filter (\<lambda>(d, s). d \<in> set ds) refinement_table of
        [] \<Rightarrow> None
      | (d, s) # _ \<Rightarrow> Some s)"

section \<open>What a match of a pattern can and must contain\<close>

text \<open>
  Two syntactic readings of a pattern, used to reason about every text at once.
  \<open>solid r\<close>: every match of \<open>r\<close> contains a character that is not whitespace.
  \<open>nullable\<close>, \<open>firstc\<close>, \<open>lastc\<close> and \<open>inner\<close>: whether a match can be empty,
  which characters it can begin and end with, and which two characters can stand next to
  each other in it. A back-reference is read as "anything".
\<close>

fun solid_class :: "cclass \<Rightarrow> bool" where
  "solid_class (Ch l) = (lower_code (of_char l) \<notin> {9, 10, 11, 12, 13, 28, 29, 30, 31, 32, 133, 160})"
| "solid_class Space = False"
| "solid_class Word = True"
| "solid_class Dot = False"

fun solid :: "regex \<Rightarrow> bool" where
  "solid Eps = False"
| "solid (One cl) = solid_class cl"
| "solid (Seq r1 r2) = (solid r1 \<or> solid r2)"
| "solid (Alt r1 r2) = (solid r1 \<and> solid r2)"
| "solid (Opt r) = False"
| "solid (Plus cl) = solid_class cl"
| "solid (LazyStar cl) = False"
| "solid (Group n r) = solid r"
| "solid (Backref n) = False"
| "solid (NotAhead r) = False"

fun nullable :: "regex \<Rightarrow> bool" where
  "nullable Eps = True"
| "nullable (One cl) = False"
| "nullable (Seq r1 r2) = (nullable r1 \<and> nullable r2)"
| "nullable (Alt r1 r2) = (nullable r1 \<or> nullable r2)"
| "nullable (Opt r) = True"
| "nullable (Plus cl) = False"
| "nullable (LazyStar cl) = True"
| "nullable (Group n r) = nullable r"
| "nullable (Backref n) = True"
| "nullable (NotAhead r) = True"

fun firstc :: "regex \<Rightarrow> char \<Rightarrow> bool" where
  "firstc Eps c = False"
| "firstc (One cl) c = in_class cl c"
| "firstc (Seq r1 r2) c = (firstc r1 c \<or> (nullable r1 \<and> firstc r2 c))"
| "firstc (Alt r1 r2) c = (firstc r1 c \<or> firstc r2 c)"
| "firstc (Opt r) c = firstc r c"
| "firstc (Plus cl) c = in_class cl c"
| "firstc (LazyStar cl) c = in_class cl c"
| "firstc (Group n r) c = firstc r c"
| "firstc (Backref n) c = True"
| "firstc (NotAhead r) c = False"

fun lastc :: "regex \<Rightarrow> char \<Rightarrow> bool" where
  "lastc Eps c = False"
| "lastc (One cl) c = in_class cl c"
| "lastc (Seq r1 r2) c = (lastc r2 c \<or> (nullable r2 \<and> lastc r1 c))"
| "lastc (Alt r1 r2) c = (lastc r1 c \<or> lastc r2 c)"
| "lastc (Opt r) c = lastc r c"
| "lastc (Plus cl) c = in_class cl c"
| "lastc (LazyStar cl) c = in_class cl c"
| "lastc (Group n r) c = lastc r c"
| "lastc (Backref n) c = True"
| "lastc (NotAhead r) c = False"

fun inner :: "regex \<Rightarrow> char \<Rightarrow> char \<Rightarrow> bool" where
  "inner Eps a b = False"
| "inner (One cl) a b = False"
| "inner (Seq r1 r2) a b = (inner r1 a b \<or> inner r2 a b \<or> (lastc r1 a \<and> firstc r2 b))"
| "inner (Alt r1 r2) a b = (inner r1 a b \<or> inner r2 a b)"
| "inner (Opt r) a b = inner r a b"
| "inner (Plus cl) a b = (in_class cl a \<and> in_class cl b)"
| "inner (LazyStar cl) a b = (in_class cl a \<and> in_class cl b)"
| "inner (Group n r) a b = inner r a b"
| "inner (Backref n) a b = True"
| "inner (NotAhead r) a b = False"

text \<open>\<open>adjacent w a b\<close>: the character \<open>a\<close> stands right before \<open>b\<close> somewhere in \<open>w\<close>.\<close>

fun adjacent :: "string \<Rightarrow> char \<Rightarrow> char \<Rightarrow> bool" where
  "adjacent [] a b = False"
| "adjacent [x] a b = False"
| "adjacent (x # y # w) a b = ((x = a \<and> y = b) \<or> adjacent (y # w) a b)"

definition fits :: "regex \<Rightarrow> string \<Rightarrow> bool" where
  "fits r w =
     ((w = [] \<longrightarrow> nullable r) \<and>
      (w \<noteq> [] \<longrightarrow> firstc r (hd w) \<and> lastc r (last w)) \<and>
      (\<forall>a b. adjacent w a b \<longrightarrow> inner r a b))"

text \<open>What the two readings say of one matched text \<open>w\<close>.\<close>

definition sound_for :: "regex \<Rightarrow> string \<Rightarrow> bool" where
  "sound_for r w = (fits r w \<and> (solid r \<longrightarrow> (\<exists>c\<in>set w. \<not> isspace c)))"

section \<open>Properties of the diagnostics module\<close>

lemma diagnostics_build_report:
  "diagnostics (build_report ratio score breaks coercion surprise md) =
     build_diagnostics ratio score breaks coercion surprise"
  by (simp add: build_report_def Let_def)

lemma status_build_report:
  "status (build_report ratio score breaks coercion surprise md) =
     determine_status (build_diagnostics ratio score breaks coercion surprise)"
  by (simp add: build_report_def Let_def)

lemma determine_status_Failed_iff:
  "determine_status ds = Failed \<longleftrightarrow> CoercionDetected \<in> set ds"
  by (simp add: determine_status_def)

lemma set_build_diagnostics:
  "set (build_diagnostics ratio score breaks coercion surprise) =
     (case validate_compression_ratio ratio of None \<Rightarrow> {} | Some d \<Rightarrow> {d}) \<union>
     (case validate_coherence_score score of None \<Rightarrow> {} | Some d \<Rightarrow> {d}) \<union>
     (if coercion then {CoercionDetected} else {}) \<union>
     (if breaks > 0 then {ExpectationBreak} else {}) \<union>
     (if surprise then {SemanticSurprise} else {})"
  by (auto simp: build_diagnostics_def append_opt_def append_if_def Let_def
           split: option.splits)

lemma validate_compression_ratio_cases:
  "validate_compression_ratio ratio \<in> {None, Some CompressionRatioLow, Some CompressionRatioHigh}"
  by (simp add: validate_compression_ratio_def)

lemma validate_coherence_score_cases:
  "validate_coherence_score score \<in> {None, Some Decoherence, Some CoherenceVerified}"
  by (simp add: validate_coherence_score_def)

lemma float_lt_gt_excl: "a \<le> b \<Longrightarrow> float_lt x a \<Longrightarrow> \<not> float_gt x b"
  by (cases x) auto

lemma float_lt_ge_excl: "a \<le> b \<Longrightarrow> float_lt x a \<Longrightarrow> \<not> float_ge x b"
  by (cases x) auto

text \<open>
  Claim C1. In every report that \<open>build_report\<close> returns, the status is \<open>Failed\<close>
  if and only if \<open>CoercionDetected\<close> is among the diagnostics; and with
  \<open>coercion_detected\<close> true the status is \<open>Failed\<close> whatever the other arguments are.
\<close>

theorem build_report_failed_iff_coercion:
  "(status (build_report ratio score breaks coercion surprise md) = Failed
      \<longleftrightarrow> CoercionDetected \<in> set (diagnostics (build_report ratio score breaks coercion surprise md)))
   \<and> status (build_report ratio score breaks True surprise md) = Failed"
proof
  show "status (build_report ratio score breaks coercion surprise md) = Failed
      \<longleftrightarrow> CoercionDetected \<in> set (diagnostics (build_report ratio score breaks coercion surprise md))"
    by (simp only: status_build_report diagnostics_build_report determine_status_Failed_iff)
  have "CoercionDetected \<in> set (build_diagnostics ratio score breaks True surprise)"
    by (simp add: set_build_diagnostics)
  then show "status (build_report ratio score breaks True surprise md) = Failed"
    by (simp only: status_build_report determine_status_Failed_iff)
qed

lemma build_diagnostics_eq:
  "build_diagnostics ratio score breaks coercion surprise =
     (case validate_compression_ratio ratio of None \<Rightarrow> [] | Some d \<Rightarrow> [d]) @
     (case validate_coherence_score score of None \<Rightarrow> [] | Some d \<Rightarrow> [d]) @
     (if coercion then [CoercionDetected] else []) @
     (if breaks > 0 then [ExpectationBreak] else []) @
     (if surprise then [SemanticSurprise] else [])"
  by (simp add: build_diagnostics_def append_opt_def append_if_def Let_def
           split: option.splits)

text \<open>
  Claim C2. \<open>determine_status\<close> resolves a list of diagnostics by strict priority:
  \<open>Failed\<close> when \<open>CoercionDetected\<close> is present; otherwise \<open>Unstable\<close> when
  \<open>Decoherence\<close> is present; otherwise \<open>Success\<close> when \<open>CoherenceVerified\<close> is
  present; otherwise \<open>Unstable\<close> for a list that is not empty; and \<open>Success\<close> for the
  empty list.
\<close>

theorem determine_status_priority:
  "(CoercionDetected \<in> set ds \<longrightarrow> determine_status ds = Failed) \<and>
   (CoercionDetected \<notin> set ds \<and> Decoherence \<in> set ds \<longrightarrow> determine_status ds = Unstable) \<and>
   (CoercionDetected \<notin> set ds \<and> Decoherence \<notin> set ds \<and> CoherenceVerified \<in> set ds
      \<longrightarrow> determine_status ds = Success) \<and>
   (CoercionDetected \<notin> set ds \<and> Decoherence \<notin> set ds \<and> CoherenceVerified \<notin> set ds \<and> ds \<noteq> []
      \<longrightarrow> determine_status ds = Unstable) \<and>
   determine_status [] = Success"
  by (simp add: determine_status_def)

text \<open>
  The four guarded cases of C2 at four concrete lists.
\<close>

theorem determine_status_priority_witness:
  "determine_status [CoherenceVerified, Decoherence, CoercionDetected] = Failed \<and>
   determine_status [CoherenceVerified, Decoherence] = Unstable \<and>
   determine_status [ExpectationBreak, CoherenceVerified] = Success \<and>
   determine_status [ExpectationBreak] = Unstable \<and>
   determine_status [] = Success"
  using determine_status_priority [of "[CoherenceVerified, Decoherence, CoercionDetected]"]
        determine_status_priority [of "[CoherenceVerified, Decoherence]"]
        determine_status_priority [of "[ExpectationBreak, CoherenceVerified]"]
        determine_status_priority [of "[ExpectationBreak]"]
  by simp


text \<open>
  The three constants are the doubles nearest to the decimals: each is a multiple of
  \<open>2^-53\<close> in [1/2, 1) and lies within half of \<open>2^-53\<close> of its decimal.
\<close>

lemma float_literals_nearest:
  "float_0_6 = 5404319552844595 / 2 ^ 53" "\<bar>float_0_6 - 6 / 10\<bar> < 1 / 2 ^ 54" "float_0_6 < 6 / 10"
  "float_0_8 = 7205759403792794 / 2 ^ 53" "\<bar>float_0_8 - 8 / 10\<bar> < 1 / 2 ^ 54" "8 / 10 < float_0_8"
  "float_0_9 = 8106479329266893 / 2 ^ 53" "\<bar>float_0_9 - 9 / 10\<bar> < 1 / 2 ^ 54" "9 / 10 < float_0_9"
  by (simp_all add: float_0_6_def float_0_8_def float_0_9_def)

lemma float_0_6_le_0_8: "float_0_6 \<le> float_0_8"
  by (simp add: float_0_6_def float_0_8_def)

lemma Low_in_build_diagnostics:
  "CompressionRatioLow \<in> set (build_diagnostics ratio score breaks coercion surprise) \<longleftrightarrow> float_lt ratio 0.5"
  by (auto simp: set_build_diagnostics validate_compression_ratio_def validate_coherence_score_def
           split: if_splits)

lemma High_in_build_diagnostics:
  "CompressionRatioHigh \<in> set (build_diagnostics ratio score breaks coercion surprise) \<longleftrightarrow> float_gt ratio 2.0"
  using float_lt_gt_excl [of "0.5" "2.0" ratio]
  by (auto simp: set_build_diagnostics validate_compression_ratio_def validate_coherence_score_def
           split: if_splits)

lemma Decoherence_in_build_diagnostics:
  "Decoherence \<in> set (build_diagnostics ratio score breaks coercion surprise) \<longleftrightarrow> float_lt score float_0_6"
  by (auto simp: set_build_diagnostics validate_compression_ratio_def validate_coherence_score_def
           split: if_splits)

lemma Verified_in_build_diagnostics:
  "CoherenceVerified \<in> set (build_diagnostics ratio score breaks coercion surprise) \<longleftrightarrow> float_ge score float_0_8"
  using float_lt_ge_excl [of float_0_6 float_0_8 score] float_0_6_le_0_8
  by (auto simp: set_build_diagnostics validate_compression_ratio_def validate_coherence_score_def
           split: if_splits)

lemma build_report_example:
  "diagnostics (build_report (Finite 1.0) (Finite float_0_9) 1 False False None)
      = [CoherenceVerified, ExpectationBreak] \<and>
   status (build_report (Finite 1.0) (Finite float_0_9) 1 False False None) = Success"
  by (simp add: build_report_def build_diagnostics_def append_opt_def append_if_def
        validate_compression_ratio_def validate_coherence_score_def determine_status_def
        float_0_6_def float_0_8_def float_0_9_def)

text \<open>
  Claim C3. In the diagnostics of \<open>build_report\<close>, \<open>CompressionRatioLow\<close> is present
  exactly when the ratio is below 0.5 and \<open>CompressionRatioHigh\<close> exactly when it is above
  2.0; \<open>Decoherence\<close> exactly when the score is below the float 0.6 and
  \<open>CoherenceVerified\<close> exactly when it is at least the float 0.8, so a score from the
  float 0.6 up to, but not including, the float 0.8 gives neither. The comparisons are
  written out for a finite input, for the two infinities and for NaN (which gets no
  threshold flag). And \<open>build_report(1.0, 0.9, 1, False)\<close> yields \<open>CoherenceVerified\<close>
  and \<open>ExpectationBreak\<close> with status \<open>Success\<close>.
\<close>

theorem build_report_threshold_flags:
  "(CompressionRatioLow \<in> set (diagnostics (build_report (Finite r) score breaks coercion surprise (md :: (string \<times> 'v) list option)))
      \<longleftrightarrow> r < 0.5) \<and>
   (CompressionRatioHigh \<in> set (diagnostics (build_report (Finite r) score breaks coercion surprise md))
      \<longleftrightarrow> r > 2.0) \<and>
   (Decoherence \<in> set (diagnostics (build_report ratio (Finite x) breaks coercion surprise md))
      \<longleftrightarrow> x < float_0_6) \<and>
   (CoherenceVerified \<in> set (diagnostics (build_report ratio (Finite x) breaks coercion surprise md))
      \<longleftrightarrow> x \<ge> float_0_8) \<and>
   (float_0_6 \<le> x \<and> x < float_0_8 \<longrightarrow>
      Decoherence \<notin> set (diagnostics (build_report ratio (Finite x) breaks coercion surprise md)) \<and>
      CoherenceVerified \<notin> set (diagnostics (build_report ratio (Finite x) breaks coercion surprise md))) \<and>
   CompressionRatioLow \<in> set (diagnostics (build_report NegInf score breaks coercion surprise md)) \<and>
   CompressionRatioHigh \<notin> set (diagnostics (build_report NegInf score breaks coercion surprise md)) \<and>
   CompressionRatioLow \<notin> set (diagnostics (build_report PosInf score breaks coercion surprise md)) \<and>
   CompressionRatioHigh \<in> set (diagnostics (build_report PosInf score breaks coercion surprise md)) \<and>
   CompressionRatioLow \<notin> set (diagnostics (build_report NaN score breaks coercion surprise md)) \<and>
   CompressionRatioHigh \<notin> set (diagnostics (build_report NaN score breaks coercion surprise md)) \<and>
   Decoherence \<in> set (diagnostics (build_report ratio NegInf breaks coercion surprise md)) \<and>
   CoherenceVerified \<notin> set (diagnostics (build_report ratio NegInf breaks coercion surprise md)) \<and>
   Decoherence \<notin> set (diagnostics (build_report ratio PosInf breaks coercion surprise md)) \<and>
   CoherenceVerified \<in> set (diagnostics (build_report ratio PosInf breaks coercion surprise md)) \<and>
   Decoherence \<notin> set (diagnostics (build_report ratio NaN breaks coercion surprise md)) \<and>
   CoherenceVerified \<notin> set (diagnostics (build_report ratio NaN breaks coercion surprise md)) \<and>
   diagnostics (build_report (Finite 1.0) (Finite float_0_9) 1 False False (None :: (string \<times> 'v) list option))
      = [CoherenceVerified, ExpectationBreak] \<and>
   status (build_report (Finite 1.0) (Finite float_0_9) 1 False False (None :: (string \<times> 'v) list option)) = Success"
  using build_report_example [where ?'a = 'v]
  by (simp add: diagnostics_build_report Low_in_build_diagnostics High_in_build_diagnostics
        Decoherence_in_build_diagnostics Verified_in_build_diagnostics)

text \<open>
  The middle band of C3 at its lower end, the float 0.6 itself: \<open>0.6 < 0.6\<close> is false,
  so a score of 0.6 gets neither coherence flag.
\<close>

theorem build_report_threshold_flags_witness:
  "float_0_6 \<le> float_0_6 \<and> float_0_6 < float_0_8 \<and>
   Decoherence \<notin> set (diagnostics (build_report (Finite 1) (Finite float_0_6) 0 False False (None :: (string \<times> unit) list option))) \<and>
   CoherenceVerified \<notin> set (diagnostics (build_report (Finite 1) (Finite float_0_6) 0 False False (None :: (string \<times> unit) list option)))"
proof -
  have h: "float_0_6 \<le> float_0_6 \<and> float_0_6 < float_0_8"
    by (simp add: float_0_6_def float_0_8_def)
  show ?thesis
    using h build_report_threshold_flags [of 1 "Finite 1" 0 False False "None :: (string \<times> unit) list option" "Finite 1" float_0_6]
    by simp
qed

text \<open>
  Claim C6 as it is worded fails: with a ratio of 0.3 and a score of 0.5 the report's
  diagnostics are \<open>[CompressionRatioLow, Decoherence]\<close>; the first of them that the table
  has is \<open>CompressionRatioLow\<close>, and \<open>suggest_refinement\<close> returns the suggestion of
  \<open>Decoherence\<close>.
\<close>

theorem suggest_refinement_sequence_order_counterexample:
  "suggest_refinement (build_report (Finite 0.3) (Finite 0.5) 0 False False (None :: (string \<times> unit) list option))
     \<noteq> first_in_sequence (diagnostics (build_report (Finite 0.3) (Finite 0.5) 0 False False (None :: (string \<times> unit) list option)))"
  by (simp add: build_report_def build_diagnostics_def append_opt_def append_if_def
        validate_compression_ratio_def validate_coherence_score_def determine_status_def
        suggest_refinement_def first_in_sequence_def refinement_table_def float_0_6_def)

text \<open>
  Claim C6, amended. \<open>suggest_refinement\<close> returns the suggestion of the first row of
  the table, in the table's order (UnderCompression, Decoherence, CoercionDetected,
  CompressionRatioLow, CompressionRatioHigh, BoundaryInsightWeak), whose diagnostic occurs
  anywhere in the report; and it returns nothing exactly when no diagnostic of the report
  is in the table.
\<close>

theorem suggest_refinement_table_order:
  "suggest_refinement report = first_in_table (diagnostics report) \<and>
   (suggest_refinement report = None \<longleftrightarrow> set (diagnostics report) \<inter> fst ` set refinement_table = {})"
  by (simp add: suggest_refinement_def first_in_table_def refinement_table_def)


text \<open>
  Claim C10. The diagnostics of a report built by \<open>build_report\<close> have no duplicates,
  at most five entries, and only the seven flags that \<open>build_report\<close> appends;
  \<open>UnderCompression\<close>, \<open>NarrativeFlowBroken\<close> and \<open>BoundaryInsightWeak\<close> never
  occur.
\<close>

theorem build_report_diagnostics_shape:
  "distinct (diagnostics (build_report ratio score breaks coercion surprise md)) \<and>
   length (diagnostics (build_report ratio score breaks coercion surprise md)) \<le> 5 \<and>
   set (diagnostics (build_report ratio score breaks coercion surprise md))
     \<subseteq> {CompressionRatioLow, CompressionRatioHigh, Decoherence, CoherenceVerified,
         CoercionDetected, ExpectationBreak, SemanticSurprise} \<and>
   UnderCompression \<notin> set (diagnostics (build_report ratio score breaks coercion surprise md)) \<and>
   NarrativeFlowBroken \<notin> set (diagnostics (build_report ratio score breaks coercion surprise md)) \<and>
   BoundaryInsightWeak \<notin> set (diagnostics (build_report ratio score breaks coercion surprise md))"
proof -
  let ?ds = "build_diagnostics ratio score breaks coercion surprise"
  have r: "validate_compression_ratio ratio = None \<or> validate_compression_ratio ratio = Some CompressionRatioLow
         \<or> validate_compression_ratio ratio = Some CompressionRatioHigh"
    using validate_compression_ratio_cases [of ratio] by simp
  have c: "validate_coherence_score score = None \<or> validate_coherence_score score = Some Decoherence
         \<or> validate_coherence_score score = Some CoherenceVerified"
    using validate_coherence_score_cases [of score] by simp
  have d: "distinct ?ds" using r c by (auto simp: build_diagnostics_eq)
  have l: "length ?ds \<le> 5" using r c by (auto simp: build_diagnostics_eq)
  have s: "set ?ds \<subseteq> {CompressionRatioLow, CompressionRatioHigh, Decoherence, CoherenceVerified,
         CoercionDetected, ExpectationBreak, SemanticSurprise}"
    using r c by (auto simp: set_build_diagnostics)
  have n: "UnderCompression \<notin> set ?ds" "NarrativeFlowBroken \<notin> set ?ds" "BoundaryInsightWeak \<notin> set ?ds"
    using s by auto
  show ?thesis
    unfolding diagnostics_build_report using d l s n by blast
qed


section \<open>Matches and the two readings of a pattern\<close>

lemma lower_code_space:
  "n \<in> {9, 10, 11, 12, 13, 28, 29, 30, 31, 32, 133, 160} \<Longrightarrow> lower_code n = n"
  by (auto simp: lower_code_def)

lemma isspace_not_word: "isspace c \<Longrightarrow> \<not> in_class Word c"
proof -
  assume sp: "isspace c"
  define n :: int where "n = of_char c"
  have n: "n \<in> {9, 10, 11, 12, 13, 28, 29, 30, 31, 32, 133, 160}"
    using sp by (simp add: isspace_def n_def)
  have "\<not> isalnum c"
    unfolding isalnum_def Let_def n_def [symmetric] using n by auto
  moreover have "c \<noteq> CHR ''_''"
  proof
    assume "c = CHR ''_''"
    then have "n = 95" by (simp add: n_def)
    then show False using n by simp
  qed
  ultimately show ?thesis by simp
qed

lemma solid_class_not_space: "solid_class cl \<Longrightarrow> in_class cl c \<Longrightarrow> \<not> isspace c"
proof (cases cl)
  case (Ch l)
  assume a: "solid_class cl" "in_class cl c"
  show ?thesis
  proof
    assume "isspace c"
    then have m: "of_char c \<in> {9, 10, 11, 12, 13, 28, 29, 30, 31, 32, 133, 160 :: int}"
      by (simp add: isspace_def)
    have "lower_code (of_char c) = of_char c" by (rule lower_code_space [OF m])
    then have "lower_code (of_char l) = of_char c"
      using a Ch by (simp add: ci_eq_def)
    then show False using a(1) Ch m by simp
  qed
next
  case Word
  assume "in_class cl c"
  then show ?thesis using Word isspace_not_word by blast
qed auto


lemma adjacent_mem: "adjacent w a b \<Longrightarrow> a \<in> set w \<and> b \<in> set w"
  by (induction w a b rule: adjacent.induct) auto

lemma adjacent_append:
  "adjacent (u @ v) a b \<longleftrightarrow>
     adjacent u a b \<or> adjacent v a b \<or> (u \<noteq> [] \<and> v \<noteq> [] \<and> last u = a \<and> hd v = b)"
proof (induction u a b rule: adjacent.induct)
  case (1 a b)
  then show ?case by simp
next
  case (2 x a b)
  then show ?case by (cases v) auto
next
  case (3 x y w a b)
  then show ?case by auto
qed

lemma step_class_sound:
  "(s', cs') \<in> set (step_class cl (s, cs)) \<Longrightarrow> \<exists>c. s = c # s' \<and> in_class cl c \<and> cs' = cs"
  by (cases s) (auto split: if_splits)

lemma greedy_plus_sound:
  "(s', cs') \<in> set (greedy_plus cl (s, cs)) \<Longrightarrow>
     \<exists>w. s = w @ s' \<and> w \<noteq> [] \<and> (\<forall>c\<in>set w. in_class cl c)"
proof (induction s)
  case Nil
  then show ?case by simp
next
  case (Cons c s)
  then have c: "in_class cl c" by (auto split: if_splits)
  from Cons.prems c have "(s', cs') \<in> set (greedy_plus cl (s, cs)) \<or> s' = s" by auto
  then show ?case
  proof
    assume "(s', cs') \<in> set (greedy_plus cl (s, cs))"
    then obtain w where "s = w @ s'" "\<forall>c\<in>set w. in_class cl c" using Cons.IH by blast
    then have "c # s = (c # w) @ s' \<and> c # w \<noteq> [] \<and> (\<forall>x\<in>set (c # w). in_class cl x)" using c by simp
    then show ?thesis by blast
  next
    assume "s' = s"
    then have "c # s = [c] @ s' \<and> [c] \<noteq> [] \<and> (\<forall>x\<in>set [c]. in_class cl x)" using c by simp
    then show ?thesis by blast
  qed
qed

lemma lazy_star_sound:
  "(s', cs') \<in> set (lazy_star cl (s, cs)) \<Longrightarrow>
     \<exists>w. s = w @ s' \<and> (\<forall>c\<in>set w. in_class cl c)"
proof (induction s)
  case Nil
  then show ?case by simp
next
  case (Cons c s)
  from Cons.prems have "s' = c # s \<or> (in_class cl c \<and> (s', cs') \<in> set (lazy_star cl (s, cs)))"
    by (auto split: if_splits)
  then show ?case
  proof
    assume "s' = c # s"
    then have "c # s = [] @ s' \<and> (\<forall>x\<in>set []. in_class cl x)" by simp
    then show ?thesis by blast
  next
    assume a: "in_class cl c \<and> (s', cs') \<in> set (lazy_star cl (s, cs))"
    then obtain w where "s = w @ s'" "\<forall>c\<in>set w. in_class cl c" using Cons.IH by blast
    then have "c # s = (c # w) @ s' \<and> (\<forall>x\<in>set (c # w). in_class cl x)" using a by simp
    then show ?thesis by blast
  qed
qed

lemma fits_all_in_class:
  assumes "\<forall>c\<in>set w. in_class cl c"
  shows "w \<noteq> [] \<Longrightarrow> fits (Plus cl) w" and "fits (LazyStar cl) w"
  using assms adjacent_mem [of w] by (auto simp: fits_def)

lemma fits_Seq: "fits r1 u \<Longrightarrow> fits r2 v \<Longrightarrow> fits (Seq r1 r2) (u @ v)"
  unfolding fits_def
  by (cases "u = []"; cases "v = []") (auto simp: adjacent_append)

lemma sound_for_Seq: "sound_for r1 u \<Longrightarrow> sound_for r2 v \<Longrightarrow> sound_for (Seq r1 r2) (u @ v)"
  using fits_Seq by (auto simp: sound_for_def)

lemma rmatch_sound:
  "(s', cs') \<in> set (rmatch r (s, cs)) \<Longrightarrow> \<exists>w. s = w @ s' \<and> sound_for r w"
proof (induction r arbitrary: s s' cs cs')
  case Eps
  then show ?case by (simp add: sound_for_def fits_def)
next
  case (One cl)
  then obtain c where "s = c # s'" "in_class cl c" using step_class_sound by fastforce
  then have "s = [c] @ s' \<and> sound_for (One cl) [c]"
    using solid_class_not_space [of cl c] by (simp add: sound_for_def fits_def)
  then show ?case by blast
next
  case (Seq r1 r2)
  from Seq.prems obtain s1 cs1 where m1: "(s1, cs1) \<in> set (rmatch r1 (s, cs))"
    and m2: "(s', cs') \<in> set (rmatch r2 (s1, cs1))" by auto
  obtain u where u: "s = u @ s1" "sound_for r1 u" using Seq.IH(1) [OF m1] by blast
  obtain v where v: "s1 = v @ s'" "sound_for r2 v" using Seq.IH(2) [OF m2] by blast
  have "s = (u @ v) @ s' \<and> sound_for (Seq r1 r2) (u @ v)"
    using u v sound_for_Seq by simp
  then show ?case by blast
next
  case (Alt r1 r2)
  from Alt.prems have "(s', cs') \<in> set (rmatch r1 (s, cs)) \<or> (s', cs') \<in> set (rmatch r2 (s, cs))"
    by auto
  then show ?case
  proof
    assume "(s', cs') \<in> set (rmatch r1 (s, cs))"
    then obtain w where "s = w @ s'" "sound_for r1 w" using Alt.IH(1) by blast
    then have "s = w @ s' \<and> sound_for (Alt r1 r2) w" by (auto simp: sound_for_def fits_def)
    then show ?thesis by blast
  next
    assume "(s', cs') \<in> set (rmatch r2 (s, cs))"
    then obtain w where "s = w @ s'" "sound_for r2 w" using Alt.IH(2) by blast
    then have "s = w @ s' \<and> sound_for (Alt r1 r2) w" by (auto simp: sound_for_def fits_def)
    then show ?thesis by blast
  qed
next
  case (Opt r)
  from Opt.prems have "(s', cs') \<in> set (rmatch r (s, cs)) \<or> s' = s" by auto
  then show ?case
  proof
    assume "(s', cs') \<in> set (rmatch r (s, cs))"
    then obtain w where "s = w @ s'" "sound_for r w" using Opt.IH by blast
    then have "s = w @ s' \<and> sound_for (Opt r) w" by (auto simp: sound_for_def fits_def)
    then show ?thesis by blast
  next
    assume "s' = s"
    then have "s = [] @ s' \<and> sound_for (Opt r) []" by (simp add: sound_for_def fits_def)
    then show ?thesis by blast
  qed
next
  case (Plus cl)
  then obtain w where w: "s = w @ s'" "w \<noteq> []" "\<forall>c\<in>set w. in_class cl c"
    using greedy_plus_sound [of s' cs' cl s cs] by auto
  then obtain c where "c \<in> set w" "in_class cl c" by (cases w) auto
  then have "solid_class cl \<longrightarrow> (\<exists>c\<in>set w. \<not> isspace c)"
    using solid_class_not_space by blast
  then have "s = w @ s' \<and> sound_for (Plus cl) w"
    using w fits_all_in_class(1) [of w cl] by (simp add: sound_for_def)
  then show ?case by blast
next
  case (LazyStar cl)
  then obtain w where w: "s = w @ s'" "\<forall>c\<in>set w. in_class cl c"
    using lazy_star_sound [of s' cs' cl s cs] by auto
  then have "s = w @ s' \<and> sound_for (LazyStar cl) w"
    using fits_all_in_class(2) [of w cl] by (simp add: sound_for_def)
  then show ?case by blast
next
  case (Group n r)
  from Group.prems obtain cs0 where "(s', cs0) \<in> set (rmatch r (s, cs))" by auto
  then obtain w where "s = w @ s'" "sound_for r w" using Group.IH by blast
  then have "s = w @ s' \<and> sound_for (Group n r) w" by (auto simp: sound_for_def fits_def)
  then show ?case by blast
next
  case (Backref n)
  from Backref.prems have "\<exists>k. s' = drop k s"
    by (auto split: option.splits if_splits)
  then obtain k where "s' = drop k s" by blast
  then have "s = take k s @ s' \<and> sound_for (Backref n) (take k s)"
    by (simp add: sound_for_def fits_def)
  then show ?case by blast
next
  case (NotAhead r)
  then have "s' = s" by (auto split: if_splits)
  then have "s = [] @ s' \<and> sound_for (NotAhead r) []" by (simp add: sound_for_def fits_def)
  then show ?case by blast
qed

lemma finditer_from_Nil:
  "(if adv then filter (\<lambda>(s', cs). length s' < length s) (rmatch r (s, [])) else rmatch r (s, [])) = []
   \<Longrightarrow> finditer_from r pos s adv = (case s of [] \<Rightarrow> [] | c # s' \<Rightarrow> finditer_from r (Suc pos) s' False)"
  by (subst finditer_from.simps) simp

lemma finditer_from_Cons:
  "(if adv then filter (\<lambda>(s', cs). length s' < length s) (rmatch r (s, [])) else rmatch r (s, []))
     = (s', cs) # xs
   \<Longrightarrow> finditer_from r pos s adv =
         \<lparr> m_start = pos, m_group = take (length s - length s') s, m_groups = cs \<rparr> #
         (if length s' < length s then finditer_from r (pos + (length s - length s')) s' False
          else if adv then [] else finditer_from r pos s True)"
  by (subst finditer_from.simps) simp

lemma finditer_from_sound:
  "m \<in> set (finditer_from r pos s adv) \<Longrightarrow> sound_for r (m_group m) \<and> (\<exists>u v. s = u @ m_group m @ v)"
proof (induction r pos s adv arbitrary: m rule: finditer_from.induct)
  case (1 r pos s adv)
  let ?res = "if adv then filter (\<lambda>(s', cs). length s' < length s) (rmatch r (s, [])) else rmatch r (s, [])"
  show ?case
  proof (cases ?res)
    case Nil
    show ?thesis
    proof (cases s)
      case Nil': Nil
      have "finditer_from r pos s adv = []"
        using finditer_from_Nil [OF Nil, of pos] Nil' by simp
      with "1.prems" show ?thesis by simp
    next
      case (Cons c t)
      have "finditer_from r pos s adv = finditer_from r (Suc pos) t False"
        using finditer_from_Nil [OF Nil, of pos] Cons by simp
      with "1.prems" have "m \<in> set (finditer_from r (Suc pos) t False)" by simp
      then have "sound_for r (m_group m) \<and> (\<exists>u v. t = u @ m_group m @ v)"
        using "1.IH"(1) [OF Nil Cons] by blast
      then obtain u v where "sound_for r (m_group m)" "t = u @ m_group m @ v" by blast
      then have "sound_for r (m_group m) \<and> s = (c # u) @ m_group m @ v" using Cons by simp
      then show ?thesis by blast
    qed
  next
    case (Cons x xs)
    obtain s' cs where x: "x = (s', cs)" by (cases x)
    have res: "?res = (s', cs) # xs" using Cons x by simp
    have "(s', cs) \<in> set ?res" using res by simp
    then have "(s', cs) \<in> set (rmatch r (s, []))" by (auto split: if_splits)
    then obtain w where w: "s = w @ s'" "sound_for r w" using rmatch_sound by blast
    then have tk: "take (length s - length s') s = w" by simp
    from "1.prems" have m: "m = \<lparr> m_start = pos, m_group = w, m_groups = cs \<rparr> \<or>
        m \<in> set (if length s' < length s then finditer_from r (pos + (length s - length s')) s' False
                  else if adv then [] else finditer_from r pos s True)"
      unfolding finditer_from_Cons [OF res] tk by simp
    then show ?thesis
    proof
      assume "m = \<lparr> m_start = pos, m_group = w, m_groups = cs \<rparr>"
      then have "sound_for r (m_group m) \<and> s = [] @ m_group m @ s'" using w by simp
      then show ?thesis by blast
    next
      assume rest: "m \<in> set (if length s' < length s then finditer_from r (pos + (length s - length s')) s' False
                  else if adv then [] else finditer_from r pos s True)"
      show ?thesis
      proof (cases "length s' < length s")
        case True
        with rest have "m \<in> set (finditer_from r (pos + (length s - length s')) s' False)" by simp
        then have "sound_for r (m_group m) \<and> (\<exists>u v. s' = u @ m_group m @ v)"
          using "1.IH"(2) [OF Cons x [symmetric] True] by blast
        then obtain u v where "sound_for r (m_group m)" "s' = u @ m_group m @ v" by blast
        then have "sound_for r (m_group m) \<and> s = (w @ u) @ m_group m @ v" using w by simp
        then show ?thesis by blast
      next
        case False
        with rest have na: "\<not> adv" and "m \<in> set (finditer_from r pos s True)"
          by (auto split: if_splits)
        then show ?thesis using "1.IH"(3) [OF Cons x [symmetric] False na] by blast
      qed
    qed
  qed
qed

lemma finditer_sound:
  "m \<in> set (finditer r s) \<Longrightarrow> sound_for r (m_group m) \<and> (\<exists>u v. s = u @ m_group m @ v)"
  unfolding finditer_def by (rule finditer_from_sound)

lemma split_from_nonempty:
  "w \<noteq> [] \<or> (\<exists>c\<in>set s. \<not> isspace c) \<Longrightarrow> split_from w s \<noteq> []"
  by (induction s arbitrary: w) auto

lemma split_nonempty: "\<exists>c\<in>set s. \<not> isspace c \<Longrightarrow> split s \<noteq> []"
  by (simp add: split_def split_from_nonempty)

lemma solid_match_gives_word:
  assumes "solid r" "finditer r s \<noteq> []"
  shows "length (split s) \<ge> 1"
proof -
  from assms(2) obtain m where m: "m \<in> set (finditer r s)" by (cases "finditer r s") auto
  then have "sound_for r (m_group m)" and "\<exists>u v. s = u @ m_group m @ v"
    using finditer_sound by blast+
  then obtain c u v where "c \<in> set (m_group m)" "\<not> isspace c" "s = u @ m_group m @ v"
    using assms(1) by (auto simp: sound_for_def)
  then have "\<exists>c\<in>set s. \<not> isspace c" by auto
  then have "split s \<noteq> []" by (rule split_nonempty)
  then show ?thesis by (cases "split s") auto
qed

section \<open>Properties of the classifier module\<close>

lemma detect_breaks_scenario:
  "map (\<lambda>b. (break_type b, position b, content b))
       (detect_breaks new_classifier ''I expected it to fail, but it actually succeeded'') =
     [(''contrast'', 2, ''expected it to fail, but it actually''),
      (''surprise_marker'', 23, ''but it''),
      (''surprise_marker'', 30, ''actually '')]"
  by code_simp

lemma classify_scenario:
  "classify_content_type new_classifier ''I expected it to fail, but it actually succeeded''
     = ''contrast_narrative''"
  by code_simp

text \<open>
  Claim C7. For the text "I expected it to fail, but it actually succeeded",
  \<open>detect_breaks\<close> returns at least one break of type \<open>contrast\<close> and at least one of
  type \<open>surprise_marker\<close>, and \<open>classify_content_type\<close> does not return
  \<open>straightforward\<close>.
\<close>

theorem expected_but_actually_scenario:
  "(\<exists>b \<in> set (detect_breaks new_classifier ''I expected it to fail, but it actually succeeded'').
      break_type b = ''contrast'') \<and>
   (\<exists>b \<in> set (detect_breaks new_classifier ''I expected it to fail, but it actually succeeded'').
      break_type b = ''surprise_marker'') \<and>
   classify_content_type new_classifier ''I expected it to fail, but it actually succeeded''
     \<noteq> ''straightforward''"
proof -
  let ?bs = "detect_breaks new_classifier ''I expected it to fail, but it actually succeeded''"
  have "map break_type ?bs = map fst (map (\<lambda>b. (break_type b, position b, content b)) ?bs)"
    by (simp add: comp_def)
  then have types: "map break_type ?bs = [''contrast'', ''surprise_marker'', ''surprise_marker'']"
    by (simp only: detect_breaks_scenario list.map fst_conv)
  have "''contrast'' \<in> set (map break_type ?bs)" "''surprise_marker'' \<in> set (map break_type ?bs)"
    unfolding types by simp_all
  then have "\<exists>b \<in> set ?bs. break_type b = ''contrast''" "\<exists>b \<in> set ?bs. break_type b = ''surprise_marker''"
    by auto
  then show ?thesis
    by (simp add: classify_scenario)
qed

lemma sorted_detect_breaks: "sorted (map position (detect_breaks self text))"
  by (simp add: detect_breaks_def)

lemma sort_key_sorted_id: "sorted (map f xs) \<Longrightarrow> sort_key f xs = xs"
  by (simp add: sorted_sort_id sort_key_id_if_sorted)

text \<open>
  Claim C8. The sequence that \<open>detect_breaks\<close> returns is sorted ascending by
  \<open>position\<close>; sorting it again changes nothing; and two calls on the same instance with
  identical text return identical sequences.
\<close>

theorem detect_breaks_sorted_deterministic:
  "sorted (map position (detect_breaks self text)) \<and>
   sort_key position (detect_breaks self text) = detect_breaks self text \<and>
   (text' = text \<longrightarrow> detect_breaks self text' = detect_breaks self text)"
  using sorted_detect_breaks [of self "text"] sort_key_sorted_id [of position "detect_breaks self text"]
  by simp

text \<open>C8 at the text "yet it", called twice.\<close>

theorem detect_breaks_sorted_deterministic_witness:
  "''yet it'' = ''yet it'' \<and>
   sorted (map position (detect_breaks new_classifier ''yet it'')) \<and>
   detect_breaks new_classifier ''yet it'' = detect_breaks new_classifier ''yet it''"
  using detect_breaks_sorted_deterministic [of new_classifier "''yet it''" "''yet it''"]
  by simp

lemma solid_classifier_patterns:
  "list_all solid (surprise_patterns new_classifier)"
  "list_all solid (paradox_patterns new_classifier)"
  "solid reversal_pattern"
  "solid contrast_pattern"
  by code_simp+

lemma collect_breaks_match:
  assumes "collect_breaks self text \<noteq> []"
  shows "\<exists>p \<in> set (surprise_patterns self) \<union> set (paradox_patterns self) \<union> {reversal_pattern, contrast_pattern}.
           finditer p text \<noteq> []"
proof -
  from assms have "surprise_marker_breaks self text \<noteq> [] \<or> paradox_breaks self text \<noteq> [] \<or>
      detect_reversals text \<noteq> [] \<or> detect_contrasts text \<noteq> []"
    by (simp add: collect_breaks_def)
  then show ?thesis
    by (auto simp: surprise_marker_breaks_def paradox_breaks_def detect_reversals_def
          detect_contrasts_def)
qed

lemma detect_breaks_Nil_iff: "detect_breaks self text = [] \<longleftrightarrow> collect_breaks self text = []"
proof -
  have "length (detect_breaks self text) = length (collect_breaks self text)"
    by (simp add: detect_breaks_def)
  then show ?thesis by (metis length_0_conv)
qed

lemma breaks_give_word:
  assumes "detect_breaks new_classifier text \<noteq> []"
  shows "length (split text) \<ge> 1"
proof -
  from assms have "collect_breaks new_classifier text \<noteq> []" by (simp add: detect_breaks_Nil_iff)
  then obtain p where p: "p \<in> set (surprise_patterns new_classifier) \<union> set (paradox_patterns new_classifier)
        \<union> {reversal_pattern, contrast_pattern}" "finditer p text \<noteq> []"
    using collect_breaks_match by blast
  then have "solid p" using solid_classifier_patterns by (auto simp: list_all_iff)
  then show ?thesis using p(2) by (rule solid_match_gives_word)
qed

lemma truediv_pos: "b \<noteq> 0 \<Longrightarrow> and_then (truediv a b) f = f (a / b)"
  by (simp add: truediv_def and_then_def)

lemma truediv_max: "and_then (truediv a (real (max n 1))) f = f (a / real (max n 1))"
  by (simp add: truediv_def and_then_def max_def)

lemma surprise_density_value:
  "calculate_surprise_density new_classifier text =
     Inr (if detect_breaks new_classifier text = [] then 0
          else min 1 (real (length (detect_breaks new_classifier text))
                        / real (max (length (split text)) 1) * 10))"
proof (cases "detect_breaks new_classifier text = []")
  case True
  then show ?thesis by (simp add: calculate_surprise_density_def)
next
  case False
  then have w: "length (split text) \<ge> 1" by (rule breaks_give_word)
  then have "real (length (split text)) \<noteq> 0" and "max (length (split text)) 1 = length (split text)"
    by auto
  then show ?thesis using False
    by (simp add: calculate_surprise_density_def Let_def truediv_pos)
qed

lemma coercion_score_value:
  "calculate_coercion_score self text =
     Inr (if fst (validate self text None) then 0
          else min 1 (real (length (snd (validate self text None)))
                        / real (max (length (split text)) 1) * 100))"
  unfolding calculate_coercion_score_def Let_def truediv_max
  by (simp split: prod.splits)

lemma invitation_score_value:
  "\<exists>d. calculate_invitation_score self text = Inr d"
proof -
  obtain c where c: "calculate_coercion_score self text = Inr c"
    using coercion_score_value by blast
  have h: "and_then (Inr c) f = f c" for f :: "real \<Rightarrow> py_error + real"
    by (simp add: and_then_def)
  show ?thesis
    unfolding calculate_invitation_score_def c h Let_def truediv_max
    by (simp add: truediv_pos)
qed

text \<open>
  Claim C9. For every text, the empty one included, \<open>calculate_surprise_density\<close>,
  \<open>calculate_coercion_score\<close> and \<open>calculate_invitation_score\<close> return a number and
  never raise \<open>ZeroDivisionError\<close>; each word count they divide by is, or equals, the
  count with a minimum of one word.
\<close>

theorem never_divides_by_zero:
  "calculate_surprise_density new_classifier text =
     Inr (if detect_breaks new_classifier text = [] then 0
          else min 1 (real (length (detect_breaks new_classifier text))
                        / real (max (length (split text)) 1) * 10)) \<and>
   calculate_coercion_score self text =
     Inr (if fst (validate self text None) then 0
          else min 1 (real (length (snd (validate self text None)))
                        / real (max (length (split text)) 1) * 100)) \<and>
   (\<exists>d. calculate_invitation_score self text = Inr d) \<and>
   calculate_surprise_density new_classifier text \<noteq> Inl ZeroDivisionError \<and>
   calculate_coercion_score self text \<noteq> Inl ZeroDivisionError \<and>
   calculate_invitation_score self text \<noteq> Inl ZeroDivisionError"
  using surprise_density_value [of "text"] coercion_score_value [of self "text"]
    invitation_score_value [of self "text"]
  by auto


section \<open>Properties of the validator module\<close>

lemma foldl_append_violation:
  "foldl (append_violation label text) acc ps = acc @ first_match_violations label ps text"
proof (induction ps arbitrary: acc)
  case Nil
  then show ?case by (simp add: first_match_violations_def)
next
  case (Cons p ps)
  have step: "append_violation label text acc p =
      acc @ (case search p text of None \<Rightarrow> [] | Some m \<Rightarrow> [label @ m_group m])"
    by (cases "finditer p text") (simp_all add: append_violation_def findall_def search_def)
  show ?case
    by (simp add: Cons.IH step) (simp add: first_match_violations_def)
qed

lemma checks_first_match:
  "check_coercion self text =
     first_match_violations ''Coercive language detected: '' (coercion_patterns self) text"
  "check_emotional_manipulation self text =
     first_match_violations ''Emotional manipulation detected: '' (emotional_patterns self) text"
  "check_pressure self text =
     first_match_violations ''Pressure/urgency tactic detected: '' (pressure_patterns self) text"
  "check_authority_claims self text =
     first_match_violations ''Authority claim detected: '' (authority_patterns self) text"
  by (simp_all add: check_coercion_def check_emotional_manipulation_def check_pressure_def
        check_authority_claims_def foldl_append_violation)

lemma length_first_match_violations:
  "length (first_match_violations label ps text) \<le> length ps"
  by (induction ps) (auto simp: first_match_violations_def split: option.splits)

lemma snd_validate:
  "snd (validate self text c) =
     (if dict_get (effective_constraints c) ''non_coercion'' True
      then check_coercion self text @ check_emotional_manipulation self text @
           check_pressure self text @ check_authority_claims self text
      else []) @
     (if dict_get (effective_constraints c) ''coherence'' True then check_coherence text else [])"
  by (simp add: validate_def Let_def)

lemma fst_validate: "fst (validate self text c) \<longleftrightarrow> snd (validate self text c) = []"
  by (simp add: validate_def Let_def)

text \<open>
  Claim C4. With \<open>non_coercion\<close> enabled, the violations of \<open>validate\<close> are those of
  the four scans in the fixed order coercive language, emotional manipulation,
  pressure/urgency, authority claims (followed by the coherence violations if that switch
  is on); each scan reports, for each of its patterns in turn, at most one violation,
  made of the category's label and the text of the pattern's first match only; and
  \<open>is_valid\<close> is true exactly when the list of violations is empty.
\<close>

theorem validate_coercion_scans:
  assumes "dict_get (effective_constraints c) ''non_coercion'' True"
  shows "snd (validate self text c) =
           first_match_violations ''Coercive language detected: '' (coercion_patterns self) text @
           first_match_violations ''Emotional manipulation detected: '' (emotional_patterns self) text @
           first_match_violations ''Pressure/urgency tactic detected: '' (pressure_patterns self) text @
           first_match_violations ''Authority claim detected: '' (authority_patterns self) text @
           (if dict_get (effective_constraints c) ''coherence'' True then check_coherence text else [])
         \<and> length (check_coercion self text) \<le> length (coercion_patterns self)
         \<and> length (check_emotional_manipulation self text) \<le> length (emotional_patterns self)
         \<and> length (check_pressure self text) \<le> length (pressure_patterns self)
         \<and> length (check_authority_claims self text) \<le> length (authority_patterns self)
         \<and> (fst (validate self text c) \<longleftrightarrow> snd (validate self text c) = [])"
proof -
  have v: "snd (validate self text c) =
           first_match_violations ''Coercive language detected: '' (coercion_patterns self) text @
           first_match_violations ''Emotional manipulation detected: '' (emotional_patterns self) text @
           first_match_violations ''Pressure/urgency tactic detected: '' (pressure_patterns self) text @
           first_match_violations ''Authority claim detected: '' (authority_patterns self) text @
           (if dict_get (effective_constraints c) ''coherence'' True then check_coherence text else [])"
    using assms by (simp add: snd_validate checks_first_match)
  have l: "length (check_coercion self text) \<le> length (coercion_patterns self)"
      "length (check_emotional_manipulation self text) \<le> length (emotional_patterns self)"
      "length (check_pressure self text) \<le> length (pressure_patterns self)"
      "length (check_authority_claims self text) \<le> length (authority_patterns self)"
    by (simp_all add: checks_first_match length_first_match_violations)
  have f: "fst (validate self text c) \<longleftrightarrow> snd (validate self text c) = []"
    by (rule fst_validate)
  from v l f show ?thesis by (intro conjI)
qed

text \<open>C4 at the text "act now", with the coherence switch off.\<close>

theorem validate_coercion_scans_witness:
  "dict_get (effective_constraints (Some [(''non_coercion'', True), (''coherence'', False)])) ''non_coercion'' True \<and>
   snd (validate new_validator ''act now'' (Some [(''non_coercion'', True), (''coherence'', False)])) =
     first_match_violations ''Coercive language detected: '' (coercion_patterns new_validator) ''act now'' @
     first_match_violations ''Emotional manipulation detected: '' (emotional_patterns new_validator) ''act now'' @
     first_match_violations ''Pressure/urgency tactic detected: '' (pressure_patterns new_validator) ''act now'' @
     first_match_violations ''Authority claim detected: '' (authority_patterns new_validator) ''act now'' \<and>
   (fst (validate new_validator ''act now'' (Some [(''non_coercion'', True), (''coherence'', False)])) \<longleftrightarrow>
    snd (validate new_validator ''act now'' (Some [(''non_coercion'', True), (''coherence'', False)])) = [])"
proof -
  have h: "dict_get (effective_constraints (Some [(''non_coercion'', True), (''coherence'', False)])) ''non_coercion'' True"
    by (simp add: dict_get_def effective_constraints_def)
  have k: "\<not> dict_get (effective_constraints (Some [(''non_coercion'', True), (''coherence'', False)])) ''coherence'' True"
    by (simp add: dict_get_def effective_constraints_def)
  show ?thesis
    using h k validate_coercion_scans [OF h, of new_validator "''act now''"] by simp
qed

lemma startswith_iff: "startswith x n \<longleftrightarrow> (\<exists>v. x = n @ v)"
  by (induction x n rule: startswith.induct) auto

lemma str_in_iff: "str_in n x \<longleftrightarrow> (\<exists>u v. x = u @ n @ v)"
proof (induction x)
  case Nil
  then show ?case by auto
next
  case (Cons c s)
  show ?case
  proof
    assume "str_in n (c # s)"
    then have "startswith (c # s) n \<or> str_in n s" by simp
    then show "\<exists>u v. c # s = u @ n @ v"
    proof
      assume "startswith (c # s) n"
      then obtain v where "c # s = [] @ n @ v" by (auto simp: startswith_iff)
      then show ?thesis by blast
    next
      assume "str_in n s"
      then obtain u v where "s = u @ n @ v" using Cons.IH by blast
      then have "c # s = (c # u) @ n @ v" by simp
      then show ?thesis by blast
    qed
  next
    assume "\<exists>u v. c # s = u @ n @ v"
    then obtain u v where uv: "c # s = u @ n @ v" by blast
    show "str_in n (c # s)"
    proof (cases u)
      case Nil
      then have "startswith (c # s) n" using uv by (auto simp: startswith_iff)
      then show ?thesis by simp
    next
      case (Cons d u')
      then have "s = u' @ n @ v" using uv by simp
      then have "str_in n s" using Cons.IH by blast
      then show ?thesis by simp
    qed
  qed
qed

lemma str_in_adjacent: "str_in n x \<Longrightarrow> adjacent n a b \<Longrightarrow> adjacent x a b"
  by (auto simp: str_in_iff adjacent_append)

lemma own_label_present: "startswith p n \<Longrightarrow> str_in n (p @ w)"
  by (auto simp: startswith_iff str_in_iff) (metis append_Nil append_assoc)

lemma foreign_label_absent:
  assumes "adjacent n a b" "\<not> adjacent p a b" "p \<noteq> []" "last p \<noteq> a"
    and "fits r w" "\<not> inner r a b"
  shows "\<not> str_in n (p @ w)"
proof
  assume "str_in n (p @ w)"
  then have "adjacent (p @ w) a b" using assms(1) by (rule str_in_adjacent)
  then have "adjacent w a b" using assms(2,3,4) by (auto simp: adjacent_append)
  then show False using assms(5,6) by (auto simp: fits_def)
qed

lemma first_match_violations_elem:
  assumes "v \<in> set (first_match_violations label ps text)"
  shows "\<exists>p\<in>set ps. \<exists>w. v = label @ w \<and> fits p w"
proof -
  from assms obtain p where p0: "p \<in> set ps"
      "v \<in> set (case search p text of None \<Rightarrow> [] | Some m \<Rightarrow> [label @ m_group m])"
    by (auto simp: first_match_violations_def)
  then obtain m where "search p text = Some m" "v = label @ m_group m"
    by (cases "search p text") auto
  with p0 have p: "p \<in> set ps" "search p text = Some m" "v = label @ m_group m" by simp_all
  then have "m \<in> set (finditer p text)"
    by (cases "finditer p text") (auto simp: search_def)
  then have "fits p (m_group m)" using finditer_sound by (auto simp: sound_for_def)
  then show ?thesis using p by blast
qed

lemma foldl_tips: "foldl (\<lambda>acc violation. acc @ tips_for violation) acc vs = acc @ concat (map tips_for vs)"
  by (induction vs arbitrary: acc) auto

lemma concat_tips_replicate:
  "\<forall>v\<in>set vs. tips_for v = [t] \<Longrightarrow> concat (map tips_for vs) = replicate (length vs) t"
  by (induction vs) auto

lemma concat_tips_Nil: "\<forall>v\<in>set vs. tips_for v = [] \<Longrightarrow> concat (map tips_for vs) = []"
  by (induction vs) auto

lemma no_foreign_pairs:
  "list_all (\<lambda>p. \<not> inner p CHR ''p'' CHR ''u'' \<and> \<not> inner p CHR ''e'' CHR ''/'' \<and> \<not> inner p CHR ''A'' CHR ''u'')
     COERCION_TERMS"
  "list_all (\<lambda>p. \<not> inner p CHR ''o'' CHR ''e'' \<and> \<not> inner p CHR ''e'' CHR ''/'' \<and> \<not> inner p CHR ''A'' CHR ''u'')
     EMOTIONAL_MANIPULATION_TERMS"
  "list_all (\<lambda>p. \<not> inner p CHR ''o'' CHR ''e'' \<and> \<not> inner p CHR ''p'' CHR ''u'' \<and> \<not> inner p CHR ''A'' CHR ''u'')
     PRESSURE_TERMS"
  "list_all (\<lambda>p. \<not> inner p CHR ''o'' CHR ''e'' \<and> \<not> inner p CHR ''p'' CHR ''u'' \<and> \<not> inner p CHR ''e'' CHR ''/'')
     AUTHORITY_TERMS"
  by code_simp+

lemma label_pairs:
  "adjacent ''Coercive language'' CHR ''o'' CHR ''e''"
  "adjacent ''Emotional manipulation'' CHR ''p'' CHR ''u''"
  "adjacent ''Pressure/urgency'' CHR ''e'' CHR ''/''"
  "adjacent ''Authority claim'' CHR ''A'' CHR ''u''"
  by simp_all

lemma tips_coercion:
  assumes "p \<in> set COERCION_TERMS" "fits p w"
  shows "tips_for (''Coercive language detected: '' @ w) = [coercive_tip]"
proof -
  let ?P = "''Coercive language detected: ''"
  from assms(1) no_foreign_pairs(1)
  have n: "\<not> inner p CHR ''p'' CHR ''u''" "\<not> inner p CHR ''e'' CHR ''/''" "\<not> inner p CHR ''A'' CHR ''u''"
    by (auto simp: list_all_iff)
  have 1: "str_in ''Coercive language'' (?P @ w)" by (rule own_label_present) simp
  have 2: "\<not> str_in ''Emotional manipulation'' (?P @ w)"
    by (rule foreign_label_absent [OF label_pairs(2) _ _ _ assms(2) n(1)]) simp_all
  have 3: "\<not> str_in ''Pressure/urgency'' (?P @ w)"
    by (rule foreign_label_absent [OF label_pairs(3) _ _ _ assms(2) n(2)]) simp_all
  have 4: "\<not> str_in ''Authority claim'' (?P @ w)"
    by (rule foreign_label_absent [OF label_pairs(4) _ _ _ assms(2) n(3)]) simp_all
  show ?thesis unfolding tips_for_def using 1 2 3 4 by simp
qed

lemma tips_emotional:
  assumes "p \<in> set EMOTIONAL_MANIPULATION_TERMS" "fits p w"
  shows "tips_for (''Emotional manipulation detected: '' @ w) = [emotional_tip]"
proof -
  let ?P = "''Emotional manipulation detected: ''"
  from assms(1) no_foreign_pairs(2)
  have n: "\<not> inner p CHR ''o'' CHR ''e''" "\<not> inner p CHR ''e'' CHR ''/''" "\<not> inner p CHR ''A'' CHR ''u''"
    by (auto simp: list_all_iff)
  have 1: "\<not> str_in ''Coercive language'' (?P @ w)"
    by (rule foreign_label_absent [OF label_pairs(1) _ _ _ assms(2) n(1)]) simp_all
  have 2: "str_in ''Emotional manipulation'' (?P @ w)" by (rule own_label_present) simp
  have 3: "\<not> str_in ''Pressure/urgency'' (?P @ w)"
    by (rule foreign_label_absent [OF label_pairs(3) _ _ _ assms(2) n(2)]) simp_all
  have 4: "\<not> str_in ''Authority claim'' (?P @ w)"
    by (rule foreign_label_absent [OF label_pairs(4) _ _ _ assms(2) n(3)]) simp_all
  show ?thesis unfolding tips_for_def using 1 2 3 4 by simp
qed

lemma tips_pressure:
  assumes "p \<in> set PRESSURE_TERMS" "fits p w"
  shows "tips_for (''Pressure/urgency tactic detected: '' @ w) = [pressure_tip]"
proof -
  let ?P = "''Pressure/urgency tactic detected: ''"
  from assms(1) no_foreign_pairs(3)
  have n: "\<not> inner p CHR ''o'' CHR ''e''" "\<not> inner p CHR ''p'' CHR ''u''" "\<not> inner p CHR ''A'' CHR ''u''"
    by (auto simp: list_all_iff)
  have 1: "\<not> str_in ''Coercive language'' (?P @ w)"
    by (rule foreign_label_absent [OF label_pairs(1) _ _ _ assms(2) n(1)]) simp_all
  have 2: "\<not> str_in ''Emotional manipulation'' (?P @ w)"
    by (rule foreign_label_absent [OF label_pairs(2) _ _ _ assms(2) n(2)]) simp_all
  have 3: "str_in ''Pressure/urgency'' (?P @ w)" by (rule own_label_present) simp
  have 4: "\<not> str_in ''Authority claim'' (?P @ w)"
    by (rule foreign_label_absent [OF label_pairs(4) _ _ _ assms(2) n(3)]) simp_all
  show ?thesis unfolding tips_for_def using 1 2 3 4 by simp
qed

lemma tips_authority:
  assumes "p \<in> set AUTHORITY_TERMS" "fits p w"
  shows "tips_for (''Authority claim detected: '' @ w) = [authority_tip]"
proof -
  let ?P = "''Authority claim detected: ''"
  from assms(1) no_foreign_pairs(4)
  have n: "\<not> inner p CHR ''o'' CHR ''e''" "\<not> inner p CHR ''p'' CHR ''u''" "\<not> inner p CHR ''e'' CHR ''/''"
    by (auto simp: list_all_iff)
  have 1: "\<not> str_in ''Coercive language'' (?P @ w)"
    by (rule foreign_label_absent [OF label_pairs(1) _ _ _ assms(2) n(1)]) simp_all
  have 2: "\<not> str_in ''Emotional manipulation'' (?P @ w)"
    by (rule foreign_label_absent [OF label_pairs(2) _ _ _ assms(2) n(2)]) simp_all
  have 3: "\<not> str_in ''Pressure/urgency'' (?P @ w)"
    by (rule foreign_label_absent [OF label_pairs(3) _ _ _ assms(2) n(3)]) simp_all
  have 4: "str_in ''Authority claim'' (?P @ w)" by (rule own_label_present) simp
  show ?thesis unfolding tips_for_def using 1 2 3 4 by simp
qed

lemma tips_coherence: "v \<in> set (check_coherence text) \<Longrightarrow> tips_for v = []"
proof -
  assume "v \<in> set (check_coherence text)"
  then have "v = ''Potential contradiction detected'' \<or> v = ''Incomplete thought at end of content''"
    by (auto simp: check_coherence_def Let_def split: if_splits)
  moreover have "tips_for ''Potential contradiction detected'' = []"
    "tips_for ''Incomplete thought at end of content'' = []"
    by code_simp+
  ultimately show ?thesis by auto
qed

lemma validate_default:
  "snd (validate self text None) =
     check_coercion self text @ check_emotional_manipulation self text @
     check_pressure self text @ check_authority_claims self text @ check_coherence text"
  by (simp add: snd_validate dict_get_def effective_constraints_def)

lemma tips_of_scans:
  "concat (map tips_for (check_coercion new_validator text)) =
     replicate (length (check_coercion new_validator text)) coercive_tip"
  "concat (map tips_for (check_emotional_manipulation new_validator text)) =
     replicate (length (check_emotional_manipulation new_validator text)) emotional_tip"
  "concat (map tips_for (check_pressure new_validator text)) =
     replicate (length (check_pressure new_validator text)) pressure_tip"
  "concat (map tips_for (check_authority_claims new_validator text)) =
     replicate (length (check_authority_claims new_validator text)) authority_tip"
  "concat (map tips_for (check_coherence text)) = []"
proof -
  show "concat (map tips_for (check_coercion new_validator text)) =
     replicate (length (check_coercion new_validator text)) coercive_tip"
    by (rule concat_tips_replicate)
       (auto simp: checks_first_match new_validator_def dest!: first_match_violations_elem
             intro: tips_coercion)
  show "concat (map tips_for (check_emotional_manipulation new_validator text)) =
     replicate (length (check_emotional_manipulation new_validator text)) emotional_tip"
    by (rule concat_tips_replicate)
       (auto simp: checks_first_match new_validator_def dest!: first_match_violations_elem
             intro: tips_emotional)
  show "concat (map tips_for (check_pressure new_validator text)) =
     replicate (length (check_pressure new_validator text)) pressure_tip"
    by (rule concat_tips_replicate)
       (auto simp: checks_first_match new_validator_def dest!: first_match_violations_elem
             intro: tips_pressure)
  show "concat (map tips_for (check_authority_claims new_validator text)) =
     replicate (length (check_authority_claims new_validator text)) authority_tip"
    by (rule concat_tips_replicate)
       (auto simp: checks_first_match new_validator_def dest!: first_match_violations_elem
             intro: tips_authority)
  show "concat (map tips_for (check_coherence text)) = []"
    by (rule concat_tips_Nil) (auto dest: tips_coherence)
qed

lemma suggestions_default:
  "foldl (\<lambda>acc violation. acc @ tips_for violation) [] (snd (validate new_validator text None)) =
     replicate (length (check_coercion new_validator text)) coercive_tip @
     replicate (length (check_emotional_manipulation new_validator text)) emotional_tip @
     replicate (length (check_pressure new_validator text)) pressure_tip @
     replicate (length (check_authority_claims new_validator text)) authority_tip"
  by (simp add: foldl_tips validate_default tips_of_scans)

lemma suggest_reframe_unfold:
  "suggest_reframe self text =
     (let suggestions = foldl (\<lambda>acc violation. acc @ tips_for violation) [] (snd (validate self text None))
      in if suggestions \<noteq> [] then Some (join '' '' suggestions) else None)"
proof -
  obtain valid vs where v: "validate self text None = (valid, vs)" by (cases "validate self text None")
  then have "valid \<longleftrightarrow> vs = []" using fst_validate [of self "text" None] by simp
  then show ?thesis by (cases valid) (simp_all add: suggest_reframe_def v)
qed

text \<open>
  Claim C5, amended. For the validator with the toolkit's patterns and every text,
  \<open>suggest_reframe\<close> returns nothing exactly when none of the four coercion-related
  scans reports a violation (so also for a text that is invalid through coherence
  violations alone); otherwise it returns, joined by spaces, one fixed tip for every
  violation of the four scans, the tip of that violation's category, in the order of the
  violations: a category's tip is repeated as often as the category has violations.
\<close>

theorem suggest_reframe_one_tip_per_violation:
  "suggest_reframe new_validator text =
     (let n1 = length (check_coercion new_validator text);
          n2 = length (check_emotional_manipulation new_validator text);
          n3 = length (check_pressure new_validator text);
          n4 = length (check_authority_claims new_validator text)
      in if n1 + n2 + n3 + n4 = 0 then None
         else Some (join '' '' (replicate n1 coercive_tip @ replicate n2 emotional_tip @
                                 replicate n3 pressure_tip @ replicate n4 authority_tip))) \<and>
   (suggest_reframe new_validator text = None \<longleftrightarrow>
      check_coercion new_validator text = [] \<and> check_emotional_manipulation new_validator text = [] \<and>
      check_pressure new_validator text = [] \<and> check_authority_claims new_validator text = [])"
  unfolding suggest_reframe_unfold suggestions_default Let_def
  by auto

lemma reframe_examples:
  "\<not> fst (validate new_validator ''but'' None)"
  "suggest_reframe new_validator ''but'' = None"
  "snd (validate new_validator ''clearly admit'' None) =
     [''Coercive language detected: clearly'', ''Coercive language detected: admit'']"
  "suggest_reframe new_validator ''clearly admit'' = Some (coercive_tip @ '' '' @ coercive_tip)"
  by code_simp+

text \<open>
  Claim C5 as it is worded fails twice. The text "but" is invalid (an incomplete thought)
  and \<open>suggest_reframe\<close> returns nothing for it. The text "clearly admit" has two
  violations of the one category coercive language, and the tip of that category is
  returned twice.
\<close>

theorem suggest_reframe_counterexample:
  "\<not> (suggest_reframe new_validator ''but'' = None \<longleftrightarrow> fst (validate new_validator ''but'' None)) \<and>
   snd (validate new_validator ''clearly admit'' None) =
     [''Coercive language detected: clearly'', ''Coercive language detected: admit''] \<and>
   suggest_reframe new_validator ''clearly admit'' = Some (coercive_tip @ '' '' @ coercive_tip)"
  using reframe_examples by simp

end
